theory Spec2Isabelle
  imports Main "HOL-Library.Multiset"
begin

section \<open>installed-check-core: the orchestrator \<^verbatim>\<open>installedCheck\<close> of index.js\<close>

text \<open>
  The development embeds the one function of \<^verbatim>\<open>index.js\<close>, \<^verbatim>\<open>installedCheck\<close>.
  What the function takes from outside is a parameter of the model:
  \<^item> the two readers \<^verbatim>\<open>readPackage\<close> and \<^verbatim>\<open>listInstalled\<close> (npm packages), as functions from a
    directory to a failure or a value;
  \<^item> the two evaluators \<^verbatim>\<open>checkPackageVersions\<close> and \<^verbatim>\<open>checkEngineVersions\<close> of \<^verbatim>\<open>./lib\<close>, as
    functions from their arguments to the two lists of lines they return;
  \<^item> the order in which the concurrent reads settle, which the event loop decides.

  The evaluators are taken as the specification describes them: synchronous functions
  of the contents of their arguments that return their two lists, throw nothing and
  write to no object they are handed.
\<close>

subsection \<open>JavaScript objects with string values\<close>

text \<open>
  A plain object that maps names to range strings is the list of its own properties in
  the order in which \<^verbatim>\<open>Object.assign\<close> and \<^verbatim>\<open>for ... in\<close> enumerate them: the
  array indices in ascending order first, then the other names in creation order.
\<close>

type_synonym object = "(string \<times> string) list"

definition digits_val :: "string \<Rightarrow> nat" where
  "digits_val s = foldl (\<lambda>n c. 10 * n + (of_char c - 48)) 0 s"

definition is_digit :: "char \<Rightarrow> bool" where
  "is_digit c = (48 \<le> (of_char c :: nat) \<and> (of_char c :: nat) \<le> 57)"

text \<open>
  An array index is a canonical numeric string (no sign, no leading zero) below
  \<open>2^32 - 1\<close>.
\<close>

definition array_index :: "string \<Rightarrow> nat option" where
  "array_index s =
     (if s \<noteq> [] \<and> list_all is_digit s \<and> (s = ''0'' \<or> take 1 s \<noteq> ''0'')
         \<and> digits_val s < 4294967295
      then Some (digits_val s) else None)"

definition index_below :: "nat \<Rightarrow> string \<times> string \<Rightarrow> bool" where
  "index_below i p = (case array_index (fst p) of None \<Rightarrow> False | Some j \<Rightarrow> j < i)"

definition has_property :: "string \<Rightarrow> object \<Rightarrow> bool" where
  "has_property k obj = list_ex (\<lambda>p. fst p = k) obj"

primrec replace_value :: "string \<Rightarrow> string \<Rightarrow> object \<Rightarrow> object" where
  "replace_value k v [] = []"
| "replace_value k v (p # ps) =
     (if fst p = k then (k, v) # ps else p # replace_value k v ps)"

text \<open>
  \<^verbatim>\<open>target[k] = v\<close> on an object made by \<^verbatim>\<open>{}\<close> whose properties were all made by
  assignments: the name \<^verbatim>\<open>__proto__\<close> reaches the setter of \<^verbatim>\<open>Object.prototype\<close>, which
  ignores a string; a present property keeps its place; a new array index goes after the
  smaller indices; any other new name goes to the end.
\<close>

definition obj_set :: "string \<Rightarrow> string \<Rightarrow> object \<Rightarrow> object" where
  "obj_set k v obj =
     (if k = ''__proto__'' then obj
      else if has_property k obj then replace_value k v obj
      else (case array_index k of
              None \<Rightarrow> obj @ [(k, v)]
            | Some i \<Rightarrow> takeWhile (index_below i) obj @ (k, v) # dropWhile (index_below i) obj))"

text \<open>\<^verbatim>\<open>Object.assign(target, ...sources)\<close>: every own property of every source, in order.\<close>

definition Object_assign :: "object \<Rightarrow> object list \<Rightarrow> object" where
  "Object_assign target sources =
     fold (\<lambda>source t. fold (\<lambda>p. obj_set (fst p) (snd p)) source t) sources target"

text \<open>\<^verbatim>\<open>delete obj[name]\<close>.\<close>

definition obj_delete :: "string \<Rightarrow> object \<Rightarrow> object" where
  "obj_delete name obj = filter (\<lambda>p. fst p \<noteq> name) obj"

text \<open>
  \<^verbatim>\<open>a || b\<close> where \<open>a\<close> is a field of a manifest: \<open>None\<close> is the absent field (or any
  other falsy value), \<open>Some obj\<close> an object, which is truthy also when it is empty.
\<close>

definition orElse :: "'a option \<Rightarrow> 'a \<Rightarrow> 'a" where
  "orElse a b = (case a of None \<Rightarrow> b | Some x \<Rightarrow> x)"

subsection \<open>JavaScript Maps\<close>

text \<open>
  A \<^verbatim>\<open>Map\<close> from package names to installed packages is the list of its entries in
  insertion order. \<^verbatim>\<open>set\<close> keeps the place of a present key and appends a new one.
\<close>

type_synonym 'p jsmap = "(string \<times> 'p) list"

primrec Map_set :: "string \<Rightarrow> 'p \<Rightarrow> 'p jsmap \<Rightarrow> 'p jsmap" where
  "Map_set key val [] = [(key, val)]"
| "Map_set key val (e # es) =
     (if fst e = key then (key, val) # es else e # Map_set key val es)"

text \<open>\<^verbatim>\<open>new Map(iterable)\<close> sets every entry of the iterable on an empty Map.\<close>

definition new_Map :: "'p jsmap \<Rightarrow> 'p jsmap" where
  "new_Map entries = fold (\<lambda>e m. Map_set (fst e) (snd e) m) entries []"

subsection \<open>Manifests, options, check contexts, results\<close>

text \<open>The fields of a manifest that \<^verbatim>\<open>installedCheck\<close> reads.\<close>

record package =
  pkg_dependencies :: "object option"
  pkg_devDependencies :: "object option"
  pkg_optionalDependencies :: "object option"
  pkg_engines :: "object option"
  pkg_workspaces :: "string list option"

text \<open>\<^verbatim>\<open>InstalledCheckOptions\<close>; \<open>None\<close> is \<^verbatim>\<open>undefined\<close>.\<close>

record options =
  engineCheck :: "bool option"
  engineIgnores :: "string list option"
  engineNoDev :: "bool option"
  path :: "string option"
  versionCheck :: "bool option"
  traverseWorkspaces :: "bool option"

text \<open>One element of the array \<^verbatim>\<open>checks\<close>.\<close>

record 'p check =
  subpath :: "string option"
  engines :: object
  dependencies :: object
  requiredDependencies :: object
  optionalDependencies :: object
  installedDependencies :: "'p jsmap"

text \<open>What an evaluator returns, and \<^verbatim>\<open>InstalledCheckResult\<close>.\<close>

record lines =
  errors :: "string list"
  warnings :: "string list"

record InstalledCheckResult = lines +
  notices :: "string list"

text \<open>
  The two evaluators of \<^verbatim>\<open>./lib\<close>, with their arguments in the order of the calls.
\<close>

record 'p evaluators =
  checkPackageVersions :: "object \<Rightarrow> 'p jsmap \<Rightarrow> object \<Rightarrow> lines"
  checkEngineVersions :: "object \<Rightarrow> object \<Rightarrow> 'p jsmap \<Rightarrow> object \<Rightarrow> lines"

text \<open>The two readers; \<open>Inl\<close> is a rejected promise with its reason.\<close>

record ('e, 'p) readers =
  readPackage :: "string \<Rightarrow> 'e + package"
  listInstalled :: "string \<Rightarrow> 'e + 'p jsmap"

datatype 'e error =
    Error string
  | ErrorWithCause string 'e

text \<open>The reads that a run starts, in the order in which it starts them.\<close>

datatype io_event =
    ReadPackage string
  | ListInstalled string

subsection \<open>The order in which concurrent reads settle\<close>

text \<open>
  \<^verbatim>\<open>Promise.all\<close> starts its promises in array order; the order in which they settle is
  not decided by the program. A schedule says, for the two reads of the root, which one
  settles first, and for the reads of the workspace members, which pending one settles
  next (\<open>p mod n\<close> among the \<open>n\<close> pending ones; in array order when the picks run out).
\<close>

record schedule =
  rootManifestFirst :: bool
  memberPicks :: "nat list"

function settle_order :: "nat list \<Rightarrow> 'a list \<Rightarrow> 'a list" where
  "settle_order picks [] = []"
| "settle_order [] (x # xs) = x # xs"
| "settle_order (p # picks) (x # xs) =
     (x # xs) ! (p mod length (x # xs))
       # settle_order picks
           (take (p mod length (x # xs)) (x # xs) @ drop (Suc (p mod length (x # xs))) (x # xs))"
  by pat_completeness auto
termination
  by (relation "measure (\<lambda>(picks, xs). length xs)") auto

text \<open>
  The outer \<^verbatim>\<open>Promise.all\<close> over the workspace members rejects with the reason of the
  first member promise that rejects; when none does, every \<^verbatim>\<open>then\<close> callback has
  run, each when its own member settled.
\<close>

primrec first_rejection :: "('e + 'a) list \<Rightarrow> 'e option" where
  "first_rejection [] = None"
| "first_rejection (r # rs) = (case r of Inl e \<Rightarrow> Some e | Inr _ \<Rightarrow> first_rejection rs)"

primrec fulfilled :: "('e + 'a) list \<Rightarrow> 'a list" where
  "fulfilled [] = []"
| "fulfilled (r # rs) = (case r of Inl _ \<Rightarrow> fulfilled rs | Inr a \<Rightarrow> a # fulfilled rs)"

subsection \<open>Building the check contexts (lines 47 to 95)\<close>

text \<open>Lines 59 and 60.\<close>

definition mainRequiredDependencies :: "package \<Rightarrow> object" where
  "mainRequiredDependencies mainPackage =
     Object_assign [] [orElse (pkg_dependencies mainPackage) [],
                       orElse (pkg_devDependencies mainPackage) []]"

definition mainOptionalDependencies :: "package \<Rightarrow> object" where
  "mainOptionalDependencies mainPackage =
     Object_assign [] [orElse (pkg_optionalDependencies mainPackage) []]"

text \<open>Lines 62 to 68: the context of the root.\<close>

definition mainCheck :: "package \<Rightarrow> 'p jsmap \<Rightarrow> 'p check" where
  "mainCheck mainPackage mainInstalledDependencies =
     \<lparr> subpath = None,
       engines = orElse (pkg_engines mainPackage) [],
       dependencies = orElse (pkg_dependencies mainPackage) [],
       requiredDependencies = mainRequiredDependencies mainPackage,
       optionalDependencies = mainOptionalDependencies mainPackage,
       installedDependencies = mainInstalledDependencies \<rparr>"

text \<open>Lines 82 and 83: a copy of the root's Map, then every entry of the member's Map set on it.\<close>

definition overlay :: "'p jsmap \<Rightarrow> 'p jsmap \<Rightarrow> 'p jsmap" where
  "overlay mainInstalledDependencies subInstalled =
     fold (\<lambda>e m. Map_set (fst e) (snd e) m) subInstalled (new_Map mainInstalledDependencies)"

text \<open>Lines 81 to 92: the \<^verbatim>\<open>then\<close> callback of one member, up to the push.\<close>

definition memberCheck ::
  "package \<Rightarrow> 'p jsmap \<Rightarrow> string \<Rightarrow> package \<Rightarrow> 'p jsmap \<Rightarrow> 'p check" where
  "memberCheck mainPackage mainInstalledDependencies sub subPackage subInstalled =
     \<lparr> subpath = Some sub,
       engines = orElse (pkg_engines subPackage) (orElse (pkg_engines mainPackage) []),
       dependencies =
         orElse (pkg_dependencies subPackage) (orElse (pkg_dependencies mainPackage) []),
       requiredDependencies =
         Object_assign [] [orElse (pkg_dependencies subPackage) [],
                           orElse (pkg_devDependencies subPackage) []],
       optionalDependencies =
         Object_assign [] [orElse (pkg_optionalDependencies subPackage) []],
       installedDependencies = overlay mainInstalledDependencies subInstalled \<rparr>"

text \<open>
  Lines 73 to 92: the promise of one member. A rejected \<^verbatim>\<open>readPackage\<close> is wrapped and
  rejects the member; a rejected \<^verbatim>\<open>listInstalled\<close> becomes \<^verbatim>\<open>new Map()\<close>.
\<close>

definition subpath_of :: "string \<Rightarrow> string \<Rightarrow> string" where
  "subpath_of p w = p @ ''/'' @ w"

definition memberTask ::
  "('e, 'p) readers \<Rightarrow> package \<Rightarrow> 'p jsmap \<Rightarrow> string \<Rightarrow> string \<Rightarrow> 'e error + 'p check" where
  "memberTask fs mainPackage mainInstalledDependencies p w =
     (case readPackage fs (subpath_of p w) of
        Inl err \<Rightarrow> Inl (ErrorWithCause ''Failed to read workspace package.json'' err)
      | Inr subPackage \<Rightarrow>
          Inr (memberCheck mainPackage mainInstalledDependencies (subpath_of p w) subPackage
                 (case listInstalled fs (subpath_of p w) of Inl _ \<Rightarrow> [] | Inr m \<Rightarrow> m)))"

text \<open>Lines 47 to 57: the two reads of the root, joined by \<^verbatim>\<open>Promise.all\<close>.\<close>

definition readRoot ::
  "('e, 'p) readers \<Rightarrow> schedule \<Rightarrow> string \<Rightarrow> 'e error + package \<times> 'p jsmap" where
  "readRoot fs sched p =
     (case (readPackage fs p, listInstalled fs p) of
        (Inr mainPackage, Inr mainInstalledDependencies) \<Rightarrow>
           Inr (mainPackage, mainInstalledDependencies)
      | (Inl err, Inr _) \<Rightarrow> Inl (ErrorWithCause ''Failed to read package.json'' err)
      | (Inr _, Inl err) \<Rightarrow> Inl (ErrorWithCause ''Failed to list installed modules'' err)
      | (Inl err1, Inl err2) \<Rightarrow>
           (if rootManifestFirst sched
            then Inl (ErrorWithCause ''Failed to read package.json'' err1)
            else Inl (ErrorWithCause ''Failed to list installed modules'' err2)))"

text \<open>Line 70 and line 73: the members that are traversed.\<close>

definition members :: "bool \<Rightarrow> package \<Rightarrow> string list" where
  "members traverse mainPackage =
     (if traverse
      then (case pkg_workspaces mainPackage of
              None \<Rightarrow> []
            | Some ws \<Rightarrow> filter (\<lambda>w. w \<noteq> ''.'') ws)
      else [])"

text \<open>
  Lines 70 to 95: the member promises are made in the order of the manifest; each pushes
  its context when it settles.
\<close>

definition workspaceChecks ::
  "('e, 'p) readers \<Rightarrow> schedule \<Rightarrow> package \<Rightarrow> 'p jsmap \<Rightarrow> string \<Rightarrow> string list
     \<Rightarrow> 'e error + 'p check list" where
  "workspaceChecks fs sched mainPackage mainInstalledDependencies p ws =
     (case first_rejection
             (settle_order (memberPicks sched)
                (map (memberTask fs mainPackage mainInstalledDependencies p) ws)) of
        Some err \<Rightarrow> Inl err
      | None \<Rightarrow>
          Inr (fulfilled
                 (settle_order (memberPicks sched)
                    (map (memberTask fs mainPackage mainInstalledDependencies p) ws))))"

definition workspaceReads :: "string \<Rightarrow> string list \<Rightarrow> io_event list" where
  "workspaceReads p ws =
     concat (map (\<lambda>w. [ReadPackage (subpath_of p w), ListInstalled (subpath_of p w)]) ws)"

subsection \<open>Running the evaluators (lines 97 to 130)\<close>

text \<open>
  The prefix of lines 105, 106, 125 and 126, from \<^verbatim>\<open>check.subpath\<close>; \<^verbatim>\<open>undefined\<close> and the
  empty string are falsy.
\<close>

definition label :: "string option \<Rightarrow> string \<Rightarrow> string" where
  "label sub str =
     (case sub of
        None \<Rightarrow> str
      | Some s \<Rightarrow> (if s = [] then str else ''['' @ s @ ''] '' @ str))"

text \<open>Lines 103 to 107.\<close>

primrec versionLoop :: "'p evaluators \<Rightarrow> 'p check list \<Rightarrow> lines \<Rightarrow> lines" where
  "versionLoop ev [] acc = acc"
| "versionLoop ev (check # checks) acc =
     (let packageResult =
            checkPackageVersions ev (requiredDependencies check)
              (installedDependencies check) (optionalDependencies check)
      in versionLoop ev checks
           \<lparr> errors = errors acc @ map (label (subpath check)) (errors packageResult),
             warnings = warnings acc @ map (label (subpath check)) (warnings packageResult) \<rparr>)"

text \<open>Lines 112 to 116: the object handed to the engine evaluator.\<close>

definition engineDependencies :: "bool \<Rightarrow> string list \<Rightarrow> 'p check \<Rightarrow> object" where
  "engineDependencies noDev ignores check =
     fold obj_delete ignores
       (Object_assign [] [if noDev then dependencies check else requiredDependencies check])"

text \<open>Lines 111 to 127.\<close>

primrec engineLoop ::
  "'p evaluators \<Rightarrow> bool \<Rightarrow> string list \<Rightarrow> 'p check list \<Rightarrow> lines \<Rightarrow> lines" where
  "engineLoop ev noDev ignores [] acc = acc"
| "engineLoop ev noDev ignores (check # checks) acc =
     (let engineResult =
            checkEngineVersions ev (engines check) (engineDependencies noDev ignores check)
              (installedDependencies check) (optionalDependencies check)
      in engineLoop ev noDev ignores checks
           \<lparr> errors = errors acc @ map (label (subpath check)) (errors engineResult),
             warnings = warnings acc @ map (label (subpath check)) (warnings engineResult) \<rparr>)"

text \<open>Lines 97 to 130.\<close>

definition runChecks ::
  "'p evaluators \<Rightarrow> bool \<Rightarrow> bool \<Rightarrow> bool \<Rightarrow> string list \<Rightarrow> 'p check list
     \<Rightarrow> InstalledCheckResult" where
  "runChecks ev doVersion doEngine noDev ignores checks =
     (let acc0 = \<lparr> errors = [], warnings = [] \<rparr>;
          acc1 = (if doVersion then versionLoop ev checks acc0 else acc0);
          acc2 = (if doEngine then engineLoop ev noDev ignores checks acc1 else acc1)
      in \<lparr> errors = errors acc2, warnings = warnings acc2, notices = [] \<rparr>)"

subsection \<open>The entry point\<close>

text \<open>
  The result is the list of the reads that the run started and either the error it
  threw or the value it returned.
\<close>

definition installedCheck ::
  "'p evaluators \<Rightarrow> ('e, 'p) readers \<Rightarrow> schedule \<Rightarrow> options option
     \<Rightarrow> io_event list \<times> ('e error + InstalledCheckResult)" where
  "installedCheck ev fs sched opts =
     (case opts of
        None \<Rightarrow> ([], Inl (Error ''Expected options to be set''))
      | Some opt \<Rightarrow>
          (if \<not> orElse (engineCheck opt) False \<and> \<not> orElse (versionCheck opt) False
           then ([], Inl (Error
                  ''Expected to run at least one check. Add engineCheck and/or versionCheck''))
           else
             (case readRoot fs sched (orElse (path opt) ''.'') of
                Inl err \<Rightarrow>
                  ([ReadPackage (orElse (path opt) ''.''),
                    ListInstalled (orElse (path opt) ''.'')], Inl err)
              | Inr (mainPackage, mainInstalledDependencies) \<Rightarrow>
                  ([ReadPackage (orElse (path opt) ''.''),
                    ListInstalled (orElse (path opt) ''.'')]
                     @ workspaceReads (orElse (path opt) ''.'')
                         (members (orElse (traverseWorkspaces opt) True) mainPackage),
                   (case workspaceChecks fs sched mainPackage mainInstalledDependencies
                           (orElse (path opt) ''.'')
                           (members (orElse (traverseWorkspaces opt) True) mainPackage) of
                      Inl err \<Rightarrow> Inl err
                    | Inr memberChecks \<Rightarrow>
                        Inr (runChecks ev
                               (orElse (versionCheck opt) False)
                               (orElse (engineCheck opt) False)
                               (orElse (engineNoDev opt) False)
                               (orElse (engineIgnores opt) [])
                               (mainCheck mainPackage mainInstalledDependencies
                                  # memberChecks)))))))"

subsection \<open>A concrete workspace for running the model\<close>

text \<open>
  Modelled from the spec: the two evaluators \<^verbatim>\<open>checkPackageVersions\<close> and
  \<^verbatim>\<open>checkEngineVersions\<close> of \<^verbatim>\<open>./lib\<close> are not among the sources. The general statements
  take them as parameters; these stand-ins serve only to run the model on concrete
  inputs, and keep the two cases the runs need. An installed package is reduced to one
  bit: whether its own engine requirements accept the platform. The version evaluator
  reports every required name that is not installed (``<name> is not installed''); the
  engine evaluator reports every dependency it is handed whose installed package does
  not accept the platform.
\<close>

definition ex_evaluators :: "bool evaluators" where
  "ex_evaluators =
     \<lparr> checkPackageVersions = (\<lambda>required installed optional.
          \<lparr> errors = map (\<lambda>p. fst p @ '' is not installed'')
                       (filter (\<lambda>p. map_of installed (fst p) = None) required),
            warnings = [] \<rparr>),
       checkEngineVersions = (\<lambda>engs deps installed optional.
          \<lparr> errors = map (\<lambda>p. fst p @ '' engine mismatch'')
                       (filter (\<lambda>p. map_of installed (fst p) = Some False) deps),
            warnings = [] \<rparr>) \<rparr>"

text \<open>
  A root in \<^verbatim>\<open>.\<close> with the members \<^verbatim>\<open>a\<close> and \<^verbatim>\<open>b\<close>; any other directory has no manifest.
\<close>

definition ex_root :: package where
  "ex_root =
     \<lparr> pkg_dependencies = Some [(''left-pad'', ''^1.0.0''), (''old'', ''^1.0.0'')],
       pkg_devDependencies = None,
       pkg_optionalDependencies = None,
       pkg_engines = Some [(''node'', ''>=18.0.0'')],
       pkg_workspaces = Some [''a'', ''b''] \<rparr>"

definition ex_a :: package where
  "ex_a =
     \<lparr> pkg_dependencies = Some [(''chalk'', ''^2.0.0''), (''legacy'', ''^1.0.0'')],
       pkg_devDependencies = None,
       pkg_optionalDependencies = None,
       pkg_engines = Some [],
       pkg_workspaces = None \<rparr>"

definition ex_b :: package where
  "ex_b =
     \<lparr> pkg_dependencies = None,
       pkg_devDependencies = Some [(''tape'', ''^5.0.0'')],
       pkg_optionalDependencies = None,
       pkg_engines = None,
       pkg_workspaces = None \<rparr>"

definition ex_c :: package where
  "ex_c =
     \<lparr> pkg_dependencies = Some [(''tape'', ''^4.0.0'')],
       pkg_devDependencies = Some [(''tape'', ''^5.0.0''), (''standard'', ''^17.0.0'')],
       pkg_optionalDependencies = Some [(''fsevents'', ''^2.0.0'')],
       pkg_engines = None,
       pkg_workspaces = None \<rparr>"

definition ex_readers :: "(string, bool) readers" where
  "ex_readers =
     \<lparr> readPackage = (\<lambda>dir.
          if dir = ''.'' then Inr ex_root
          else if dir = ''./a'' then Inr ex_a
          else if dir = ''./b'' then Inr ex_b
          else Inl ''ENOENT''),
       listInstalled = (\<lambda>dir.
          if dir = ''.'' then Inr [(''old'', False)]
          else if dir = ''./a'' then Inr [(''legacy'', False)]
          else Inl ''ENOENT'') \<rparr>"

definition ex_options :: options where
  "ex_options =
     \<lparr> engineCheck = Some True, engineIgnores = None, engineNoDev = None,
       path = None, versionCheck = Some True, traverseWorkspaces = None \<rparr>"

definition in_order :: schedule where
  "in_order = \<lparr> rootManifestFirst = True, memberPicks = [] \<rparr>"

definition last_first :: schedule where
  "last_first = \<lparr> rootManifestFirst = True, memberPicks = [1] \<rparr>"

subsection \<open>The two writes of the function, on a store\<close>

text \<open>
  The function writes to two objects after their creation: the Map of line 82 (line 83)
  and the object of line 112 (line 115). Both are new. To see that no other object is
  written, the two places are also given on a store: an object is a cell of a list, a
  reference is its index, a new object is appended. The evaluator reads the objects it
  is handed and writes to none.
\<close>

text \<open>Lines 82 and 83, on a store of Maps: the reference of the new Map and the store.\<close>

definition overlay_store :: "nat \<Rightarrow> nat \<Rightarrow> 'p jsmap list \<Rightarrow> nat \<times> 'p jsmap list" where
  "overlay_store mainInstalledDependencies subInstalled st =
     (length st,
      fold (\<lambda>e s. s[length st := Map_set (fst e) (snd e) (s ! length st)])
        (st ! subInstalled)
        (st @ [new_Map (st ! mainInstalledDependencies)]))"

text \<open>A check context whose four plain objects are references into a store.\<close>

record 'p check_ref =
  ref_subpath :: "string option"
  ref_engines :: nat
  ref_dependencies :: nat
  ref_requiredDependencies :: nat
  ref_optionalDependencies :: nat
  ref_installedDependencies :: "'p jsmap"

definition deref :: "object list \<Rightarrow> 'p check_ref \<Rightarrow> 'p check" where
  "deref st c =
     \<lparr> subpath = ref_subpath c,
       engines = st ! ref_engines c,
       dependencies = st ! ref_dependencies c,
       requiredDependencies = st ! ref_requiredDependencies c,
       optionalDependencies = st ! ref_optionalDependencies c,
       installedDependencies = ref_installedDependencies c \<rparr>"

text \<open>No reference of the context dangles.\<close>

definition valid_ref :: "object list \<Rightarrow> 'p check_ref \<Rightarrow> bool" where
  "valid_ref st c =
     (ref_engines c < length st \<and> ref_dependencies c < length st
      \<and> ref_requiredDependencies c < length st \<and> ref_optionalDependencies c < length st)"

text \<open>\<^verbatim>\<open>Object.assign(target, source)\<close> and \<^verbatim>\<open>delete target[name]\<close> through references.\<close>

definition store_assign :: "nat \<Rightarrow> nat \<Rightarrow> object list \<Rightarrow> object list" where
  "store_assign target source st = st[target := Object_assign (st ! target) [st ! source]]"

definition store_delete :: "nat \<Rightarrow> string \<Rightarrow> object list \<Rightarrow> object list" where
  "store_delete target name st = st[target := obj_delete name (st ! target)]"

text \<open>Lines 111 to 127 on a store of objects.\<close>

primrec engineLoop_store ::
  "'p evaluators \<Rightarrow> bool \<Rightarrow> string list \<Rightarrow> 'p check_ref list
     \<Rightarrow> object list \<times> lines \<Rightarrow> object list \<times> lines" where
  "engineLoop_store ev noDev ignores [] state = state"
| "engineLoop_store ev noDev ignores (check # checks) state =
     (let deps = length (fst state);
          st1 = store_assign deps
                  (if noDev then ref_dependencies check else ref_requiredDependencies check)
                  (fst state @ [[]]);
          st2 = fold (store_delete deps) ignores st1;
          engineResult =
            checkEngineVersions ev (st2 ! ref_engines check) (st2 ! deps)
              (ref_installedDependencies check) (st2 ! ref_optionalDependencies check)
      in engineLoop_store ev noDev ignores checks
           (st2,
            \<lparr> errors = errors (snd state) @ map (label (ref_subpath check)) (errors engineResult),
              warnings =
                warnings (snd state) @ map (label (ref_subpath check)) (warnings engineResult) \<rparr>))"

text \<open>
  A store with the four objects of a root context (engines, dependencies, required and
  optional dependencies), and the context that refers to them.
\<close>

definition ex_store :: "object list" where
  "ex_store =
     [[(''node'', ''>=18.0.0'')],
      [(''left-pad'', ''^1.0.0''), (''old'', ''^1.0.0'')],
      [(''left-pad'', ''^1.0.0''), (''old'', ''^1.0.0''), (''tape'', ''^5.0.0'')],
      []]"

definition ex_ref :: "bool check_ref" where
  "ex_ref =
     \<lparr> ref_subpath = None, ref_engines = 0, ref_dependencies = 1,
       ref_requiredDependencies = 2, ref_optionalDependencies = 3,
       ref_installedDependencies = [(''old'', False)] \<rparr>"

subsection \<open>Auxiliary notions for the statements\<close>

text \<open>An object or a Map has one entry for a name.\<close>

definition unique_keys :: "(string \<times> 'v) list \<Rightarrow> bool" where
  "unique_keys entries = distinct (map fst entries)"

text \<open>The three dependency objects of a manifest have one property for a name.\<close>

definition objects_wf :: "package \<Rightarrow> bool" where
  "objects_wf pkg =
     (unique_keys (orElse (pkg_dependencies pkg) [])
      \<and> unique_keys (orElse (pkg_devDependencies pkg) [])
      \<and> unique_keys (orElse (pkg_optionalDependencies pkg) []))"

text \<open>
  The union of the direct and the dev dependencies of a manifest, the dev range winning.
\<close>

definition devOverDirect :: "package \<Rightarrow> string \<Rightarrow> string option" where
  "devOverDirect pkg n =
     (case map_of (orElse (pkg_devDependencies pkg) []) n of
        None \<Rightarrow> map_of (orElse (pkg_dependencies pkg) []) n
      | Some r \<Rightarrow> Some r)"

text \<open>What the two evaluators return for one context.\<close>

definition versionResult :: "'p evaluators \<Rightarrow> 'p check \<Rightarrow> lines" where
  "versionResult ev check =
     checkPackageVersions ev (requiredDependencies check) (installedDependencies check)
       (optionalDependencies check)"

definition engineResult :: "'p evaluators \<Rightarrow> bool \<Rightarrow> string list \<Rightarrow> 'p check \<Rightarrow> lines" where
  "engineResult ev noDev ignores check =
     checkEngineVersions ev (engines check) (engineDependencies noDev ignores check)
       (installedDependencies check) (optionalDependencies check)"

text \<open>
  The lines of one evaluator over all contexts: context after context, each context's
  lines in the order of the evaluator, with the label of the context.
\<close>

definition block :: "('p check \<Rightarrow> string list) \<Rightarrow> 'p check list \<Rightarrow> string list" where
  "block f checks = concat (map (\<lambda>c. map (label (subpath c)) (f c)) checks)"

text \<open>The lines of member contexts, each with the prefix of its subpath.\<close>

definition prefixed :: "string \<Rightarrow> string \<Rightarrow> string" where
  "prefixed sub str = ''['' @ sub @ ''] '' @ str"

definition memberLines :: "('p check \<Rightarrow> string list) \<Rightarrow> 'p check list \<Rightarrow> string list" where
  "memberLines f checks =
     concat (map (\<lambda>c. map (prefixed (orElse (subpath c) [])) (f c)) checks)"

text \<open>
  The order as the specification words it: context after context, and for each context
  the lines of the version check followed by the lines of the engine check.
\<close>

definition byContext ::
  "'p evaluators \<Rightarrow> bool \<Rightarrow> string list \<Rightarrow> 'p check list \<Rightarrow> string list" where
  "byContext ev noDev ignores checks =
     concat (map (\<lambda>c. map (label (subpath c)) (errors (versionResult ev c))
                      @ map (label (subpath c)) (errors (engineResult ev noDev ignores c)))
               checks)"

text \<open>
  The required set as the specification words it: the direct and the dev dependencies
  of a manifest, without the ignored names.
\<close>

definition requiredWithoutIgnored :: "string list \<Rightarrow> package \<Rightarrow> object" where
  "requiredWithoutIgnored ignores pkg =
     fold obj_delete ignores
       (Object_assign [] [orElse (pkg_dependencies pkg) [], orElse (pkg_devDependencies pkg) []])"

text \<open>
  The order of the workspaces as the specification words it: all lines of the root,
  then the lines of the members in the order of the manifest.
\<close>

definition rootThenMembers ::
  "'p evaluators \<Rightarrow> bool \<Rightarrow> string list \<Rightarrow> 'p check \<Rightarrow> 'p check list \<Rightarrow> string list" where
  "rootThenMembers ev noDev ignores root memberChecks =
     (errors (versionResult ev root) @ errors (engineResult ev noDev ignores root))
     @ memberLines (\<lambda>c. errors (versionResult ev c) @ errors (engineResult ev noDev ignores c))
         memberChecks"

section \<open>Properties\<close>

subsection \<open>Maps: lookup after \<^verbatim>\<open>set\<close>\<close>

lemma map_of_Map_set: "map_of (Map_set k v m) = (map_of m)(k \<mapsto> v)"
  by (induction m) auto

lemma keys_Map_set: "fst ` set (Map_set k v m) = insert k (fst ` set m)"
  by (induction m) auto

lemma unique_keys_Map_set: "unique_keys m \<Longrightarrow> unique_keys (Map_set k v m)"
  unfolding unique_keys_def
proof (induction m)
  case Nil
  then show ?case by simp
next
  case (Cons e m)
  then show ?case
    using keys_Map_set [of k v m] by (auto simp: image_iff)
qed

lemma Map_set_new: "k \<notin> fst ` set m \<Longrightarrow> Map_set k v m = m @ [(k, v)]"
  by (induction m) auto

lemma fold_Map_set_append:
  "distinct (map fst (acc @ m)) \<Longrightarrow>
     fold (\<lambda>e m. Map_set (fst e) (snd e) m) m acc = acc @ m"
proof (induction m arbitrary: acc)
  case Nil
  then show ?case by simp
next
  case (Cons e m)
  have "Map_set (fst e) (snd e) acc = acc @ [e]"
    using Cons.prems by (simp add: Map_set_new)
  moreover have "distinct (map fst ((acc @ [e]) @ m))"
    using Cons.prems by simp
  ultimately show ?case
    using Cons.IH [of "acc @ [e]"] by simp
qed

lemma new_Map_id: "unique_keys m \<Longrightarrow> new_Map m = m"
  unfolding new_Map_def unique_keys_def using fold_Map_set_append [of "[]" m] by simp

lemma map_of_fold_Map_set:
  "distinct (map fst sub) \<Longrightarrow>
     map_of (fold (\<lambda>e m. Map_set (fst e) (snd e) m) sub acc) k =
       (case map_of sub k of None \<Rightarrow> map_of acc k | Some v \<Rightarrow> Some v)"
proof (induction sub arbitrary: acc)
  case Nil
  then show ?case by simp
next
  case (Cons e sub)
  have none: "map_of sub (fst e) = None"
    using Cons.prems by (simp add: map_of_eq_None_iff)
  show ?case
    using Cons.IH [of "Map_set (fst e) (snd e) acc"] Cons.prems none
    by (cases e) (auto simp: map_of_Map_set split: option.splits)
qed

lemma unique_keys_fold_Map_set:
  "unique_keys acc \<Longrightarrow> unique_keys (fold (\<lambda>e m. Map_set (fst e) (snd e) m) sub acc)"
  by (induction sub arbitrary: acc) (simp_all add: unique_keys_Map_set)

lemma map_of_overlay:
  "unique_keys main \<Longrightarrow> unique_keys sub \<Longrightarrow>
     map_of (overlay main sub) k =
       (case map_of sub k of None \<Rightarrow> map_of main k | Some v \<Rightarrow> Some v)"
  by (simp add: overlay_def new_Map_id map_of_fold_Map_set unique_keys_def)

subsection \<open>Objects: lookup after assignment and deletion\<close>

lemma has_property_iff: "has_property k obj \<longleftrightarrow> k \<in> fst ` set obj"
  by (auto simp: has_property_def list_ex_iff)

lemma map_of_replace_value:
  "k \<in> fst ` set obj \<Longrightarrow> map_of (replace_value k v obj) = (map_of obj)(k \<mapsto> v)"
proof (induction obj)
  case Nil
  then show ?case by simp
next
  case (Cons p obj)
  show ?case
  proof (cases "fst p = k")
    case True
    then show ?thesis by (cases p) auto
  next
    case False
    then have "k \<in> fst ` set obj" using Cons.prems by auto
    with Cons.IH False show ?thesis by (cases p) (auto simp: fun_upd_twist)
  qed
qed

lemma keys_replace_value: "map fst (replace_value k v obj) = map fst obj"
  by (induction obj) auto

lemma map_of_insert_new:
  assumes "k \<notin> fst ` set obj"
  shows "map_of (takeWhile P obj @ (k, v) # dropWhile P obj) = (map_of obj)(k \<mapsto> v)"
proof -
  have none: "map_of (takeWhile P obj) k = None"
    using assms set_takeWhileD [of _ P obj] by (force simp: map_of_eq_None_iff)
  have "map_of (takeWhile P obj @ (k, v) # dropWhile P obj)
          = (map_of (dropWhile P obj))(k \<mapsto> v) ++ map_of (takeWhile P obj)"
    by simp
  also have "\<dots> = (map_of (dropWhile P obj) ++ map_of (takeWhile P obj))(k \<mapsto> v)"
    using none by (auto simp: map_add_def fun_eq_iff split: option.splits)
  also have "map_of (dropWhile P obj) ++ map_of (takeWhile P obj) = map_of obj"
    using map_of_append [of "takeWhile P obj" "dropWhile P obj"] by simp
  finally show ?thesis .
qed

lemma map_of_obj_set:
  "map_of (obj_set k v obj) = (if k = ''__proto__'' then map_of obj else (map_of obj)(k \<mapsto> v))"
proof (cases "k = ''__proto__''")
  case True
  then show ?thesis by (simp add: obj_set_def)
next
  case False
  show ?thesis
  proof (cases "k \<in> fst ` set obj")
    case True
    with False show ?thesis
      by (simp add: obj_set_def has_property_iff map_of_replace_value)
  next
    case new: False
    have "map_of obj k = None" using new by (simp add: map_of_eq_None_iff)
    then have "map_of (obj @ [(k, v)]) = (map_of obj)(k \<mapsto> v)"
      by (auto simp: map_add_def fun_eq_iff split: option.splits)
    with False new show ?thesis
      using map_of_insert_new [OF new]
      by (cases "array_index k") (simp_all only: obj_set_def has_property_iff if_False option.case)
  qed
qed

lemma distinct_insert_new:
  assumes "distinct (map fst obj)" "k \<notin> fst ` set obj"
  shows "distinct (map fst (takeWhile P obj @ (k, v) # dropWhile P obj))"
proof -
  have "distinct (map fst (takeWhile P obj) @ map fst (dropWhile P obj))"
    using assms(1) by (metis map_append takeWhile_dropWhile_id)
  then have "distinct (map fst (takeWhile P obj))" "distinct (map fst (dropWhile P obj))"
    "fst ` set (takeWhile P obj) \<inter> fst ` set (dropWhile P obj) = {}"
    by simp_all
  moreover have "k \<notin> fst ` set (takeWhile P obj)" "k \<notin> fst ` set (dropWhile P obj)"
    using assms(2) set_takeWhileD [of _ P obj] set_dropWhileD [of _ P obj] by force+
  ultimately show ?thesis by simp
qed

lemma unique_keys_obj_set: "unique_keys obj \<Longrightarrow> unique_keys (obj_set k v obj)"
  using distinct_insert_new [of obj k]
  by (simp add: obj_set_def unique_keys_def has_property_iff keys_replace_value
        split: option.splits)

lemma map_of_fold_obj_set:
  "distinct (map fst source) \<Longrightarrow> n \<noteq> ''__proto__'' \<Longrightarrow>
     map_of (fold (\<lambda>p. obj_set (fst p) (snd p)) source target) n =
       (case map_of source n of None \<Rightarrow> map_of target n | Some v \<Rightarrow> Some v)"
proof (induction source arbitrary: target)
  case Nil
  then show ?case by simp
next
  case (Cons p source)
  have none: "map_of source (fst p) = None"
    using Cons.prems by (simp add: map_of_eq_None_iff)
  show ?case
    using Cons.IH [of "obj_set (fst p) (snd p) target"] Cons.prems none
    by (cases p) (auto simp: map_of_obj_set split: option.splits)
qed

lemma proto_fold_obj_set:
  "map_of (fold (\<lambda>p. obj_set (fst p) (snd p)) source target) ''__proto__''
     = map_of target ''__proto__''"
  by (induction source arbitrary: target) (simp_all add: map_of_obj_set)

lemma unique_keys_fold_obj_set:
  "unique_keys target \<Longrightarrow> unique_keys (fold (\<lambda>p. obj_set (fst p) (snd p)) source target)"
  by (induction source arbitrary: target) (simp_all add: unique_keys_obj_set)

lemma unique_keys_Object_assign:
  "unique_keys target \<Longrightarrow> unique_keys (Object_assign target sources)"
  unfolding Object_assign_def
  by (induction sources arbitrary: target) (simp_all add: unique_keys_fold_obj_set)

lemma map_of_assign1:
  "unique_keys a \<Longrightarrow> n \<noteq> ''__proto__'' \<Longrightarrow> map_of (Object_assign [] [a]) n = map_of a n"
  by (simp add: Object_assign_def map_of_fold_obj_set unique_keys_def split: option.splits)

lemma map_of_assign2:
  "unique_keys a \<Longrightarrow> unique_keys b \<Longrightarrow> n \<noteq> ''__proto__'' \<Longrightarrow>
     map_of (Object_assign [] [a, b]) n =
       (case map_of b n of None \<Rightarrow> map_of a n | Some v \<Rightarrow> Some v)"
  by (simp add: Object_assign_def map_of_fold_obj_set unique_keys_def split: option.splits)

lemma proto_assign: "map_of (Object_assign [] sources) ''__proto__'' = None"
proof -
  have "map_of (Object_assign target sources) ''__proto__'' = map_of target ''__proto__''"
    for target
    unfolding Object_assign_def
    by (induction sources arbitrary: target) (simp_all add: proto_fold_obj_set)
  from this [of "[]"] show ?thesis by simp
qed

lemma map_of_obj_delete: "map_of (obj_delete name obj) = (map_of obj)(name := None)"
  by (induction obj) (auto simp: obj_delete_def)

lemma map_of_fold_obj_delete:
  "map_of (fold obj_delete names obj) n = (if n \<in> set names then None else map_of obj n)"
  by (induction names arbitrary: obj) (auto simp: map_of_obj_delete)

lemma unique_keys_obj_delete: "unique_keys obj \<Longrightarrow> unique_keys (obj_delete name obj)"
  by (simp add: unique_keys_def obj_delete_def distinct_map_filter)

lemma unique_keys_fold_obj_delete: "unique_keys obj \<Longrightarrow> unique_keys (fold obj_delete names obj)"
  by (induction names arbitrary: obj) (simp_all add: unique_keys_obj_delete)

subsection \<open>Settling order and the two loops\<close>

lemma settle_order_step:
  "ys \<noteq> [] \<Longrightarrow>
     settle_order (p # picks) ys =
       ys ! (p mod length ys)
         # settle_order picks (take (p mod length ys) ys @ drop (Suc (p mod length ys)) ys)"
proof (cases ys)
  case Nil
  moreover assume "ys \<noteq> []"
  ultimately show ?thesis by simp
next
  case (Cons y ys')
  show ?thesis unfolding Cons by (simp only: settle_order.simps)
qed

lemma mset_remove_nth:
  "i < length ys \<Longrightarrow> add_mset (ys ! i) (mset (take i ys @ drop (Suc i) ys)) = mset ys"
proof -
  assume "i < length ys"
  then have "ys = take i ys @ ys ! i # drop (Suc i) ys"
    by (rule id_take_nth_drop)
  then have "mset ys = mset (take i ys @ ys ! i # drop (Suc i) ys)"
    by simp
  then show ?thesis by simp
qed

lemma mset_settle_order: "mset (settle_order picks xs) = mset xs"
proof (induction picks xs rule: settle_order.induct)
  case (1 picks)
  show ?case by simp
next
  case (2 x xs)
  show ?case by simp
next
  case (3 p picks x xs)
  let ?ys = "x # xs"
  let ?i = "p mod length ?ys"
  let ?rest = "take ?i ?ys @ drop (Suc ?i) ?ys"
  have i: "?i < length ?ys" by simp
  have "settle_order (p # picks) ?ys = ?ys ! ?i # settle_order picks ?rest"
    by (rule settle_order_step) simp
  then have "mset (settle_order (p # picks) ?ys)
               = add_mset (?ys ! ?i) (mset (settle_order picks ?rest))"
    by (simp only: mset.simps)
  also have "\<dots> = add_mset (?ys ! ?i) (mset ?rest)"
    by (simp only: "3.IH")
  also have "\<dots> = mset ?ys"
    by (rule mset_remove_nth [OF i])
  finally show ?case .
qed

lemma settle_order_map: "settle_order picks (map f xs) = map f (settle_order picks xs)"
proof (induction picks xs rule: settle_order.induct)
  case (1 picks)
  show ?case by simp
next
  case (2 x xs)
  show ?case by simp
next
  case (3 p picks x xs)
  let ?ys = "x # xs"
  let ?i = "p mod length ?ys"
  have i: "?i < length ?ys" by simp
  have ne: "map f ?ys \<noteq> []" "?ys \<noteq> []" by simp_all
  have "settle_order (p # picks) (map f ?ys)
          = map f ?ys ! ?i # settle_order picks (take ?i (map f ?ys) @ drop (Suc ?i) (map f ?ys))"
    using settle_order_step [OF ne(1), of p picks] by (simp only: length_map)
  also have "map f ?ys ! ?i = f (?ys ! ?i)"
    using i by (rule nth_map)
  also have "take ?i (map f ?ys) @ drop (Suc ?i) (map f ?ys)
               = map f (take ?i ?ys @ drop (Suc ?i) ?ys)"
    by (simp only: take_map drop_map map_append)
  also have "settle_order picks (map f (take ?i ?ys @ drop (Suc ?i) ?ys))
               = map f (settle_order picks (take ?i ?ys @ drop (Suc ?i) ?ys))"
    by (rule "3.IH")
  finally show ?case
    by (simp only: settle_order_step [OF ne(2), of p picks] list.map)
qed

lemma first_rejection_None: "first_rejection rs = None \<Longrightarrow> map Inr (fulfilled rs) = rs"
  by (induction rs) (auto split: sum.splits)



lemma versionLoop_block:
  "versionLoop ev checks acc =
     \<lparr> errors = errors acc @ block (\<lambda>c. errors (versionResult ev c)) checks,
       warnings = warnings acc @ block (\<lambda>c. warnings (versionResult ev c)) checks \<rparr>"
  by (induction checks arbitrary: acc) (simp_all add: block_def versionResult_def Let_def)

lemma engineLoop_block:
  "engineLoop ev noDev ignores checks acc =
     \<lparr> errors = errors acc @ block (\<lambda>c. errors (engineResult ev noDev ignores c)) checks,
       warnings = warnings acc @ block (\<lambda>c. warnings (engineResult ev noDev ignores c)) checks \<rparr>"
  by (induction checks arbitrary: acc) (simp_all add: block_def engineResult_def Let_def)

subsection \<open>The copy handed to the engine evaluator; the store\<close>

lemma map_of_engineDependencies:
  "unique_keys (if noDev then dependencies c else requiredDependencies c) \<Longrightarrow>
   n \<noteq> ''__proto__'' \<Longrightarrow>
     map_of (engineDependencies noDev ignores c) n =
       (if n \<in> set ignores then None
        else map_of (if noDev then dependencies c else requiredDependencies c) n)"
  by (simp add: engineDependencies_def map_of_fold_obj_delete map_of_assign1)

lemma fold_update_new_cell:
  "fold (\<lambda>e s. s[length st := g e (s ! length st)]) es (st @ [x])
     = st @ [fold g es x]"
proof (induction es arbitrary: x)
  case Nil
  show ?case by simp
next
  case (Cons e es)
  have "(st @ [x])[length st := g e ((st @ [x]) ! length st)] = st @ [g e x]"
    by simp
  with Cons.IH [of "g e x"] show ?case by simp
qed

lemma overlay_store_eq:
  assumes "mainAddr < length st" and "subAddr < length st"
  shows "overlay_store mainAddr subAddr st
           = (length st, st @ [overlay (st ! mainAddr) (st ! subAddr)])"
proof -
  have "(st @ [new_Map (st ! mainAddr)]) ! subAddr = st ! subAddr"
    using assms(2) by (simp add: nth_append)
  moreover have "fold (\<lambda>e s. s[length st := (\<lambda>e. Map_set (fst e) (snd e)) e (s ! length st)])
          (st ! subAddr) (st @ [new_Map (st ! mainAddr)])
        = st @ [fold (\<lambda>e. Map_set (fst e) (snd e)) (st ! subAddr) (new_Map (st ! mainAddr))]"
    by (rule fold_update_new_cell)
  ultimately show ?thesis
    using assms(1) by (simp add: overlay_store_def overlay_def nth_append)
qed

lemma store_assign_new:
  "source < length st \<Longrightarrow>
     store_assign (length st) source (st @ [[]]) = st @ [Object_assign [] [st ! source]]"
  by (simp add: store_assign_def nth_append)

lemma store_delete_new:
  "fold (store_delete (length st)) names (st @ [obj]) = st @ [fold obj_delete names obj]"
proof -
  have "store_delete (length st) = (\<lambda>name s. s[length st := obj_delete name (s ! length st)])"
    by (simp add: store_delete_def fun_eq_iff)
  then show ?thesis by (simp only: fold_update_new_cell)
qed

lemma deref_append: "valid_ref st c \<Longrightarrow> deref (st @ new) c = deref st c"
  by (simp add: valid_ref_def deref_def nth_append)

lemma valid_ref_append: "valid_ref st c \<Longrightarrow> valid_ref (st @ new) c"
  by (simp add: valid_ref_def)

lemma engine_copy_store:
  assumes "valid_ref st c"
  shows "fold (store_delete (length st)) ignores
           (store_assign (length st)
              (if noDev then ref_dependencies c else ref_requiredDependencies c) (st @ [[]]))
         = st @ [engineDependencies noDev ignores (deref st c)]"
proof -
  have "(if noDev then ref_dependencies c else ref_requiredDependencies c) < length st"
    using assms by (simp add: valid_ref_def)
  then have "store_assign (length st)
               (if noDev then ref_dependencies c else ref_requiredDependencies c) (st @ [[]])
             = st @ [Object_assign []
                       [st ! (if noDev then ref_dependencies c else ref_requiredDependencies c)]]"
    by (rule store_assign_new)
  then show ?thesis
    by (simp add: store_delete_new engineDependencies_def deref_def)
qed

lemma engineLoop_store_eq:
  "list_all (valid_ref st) checks \<Longrightarrow>
     engineLoop_store ev noDev ignores checks (st, acc)
       = (st @ map (\<lambda>c. engineDependencies noDev ignores (deref st c)) checks,
          engineLoop ev noDev ignores (map (deref st) checks) acc)"
proof (induction checks arbitrary: st acc)
  case Nil
  show ?case by simp
next
  case (Cons c checks)
  let ?copy = "engineDependencies noDev ignores (deref st c)"
  let ?st' = "st @ [?copy]"
  have c: "valid_ref st c" and rest: "list_all (valid_ref st) checks"
    using Cons.prems by simp_all
  have rest': "list_all (valid_ref ?st') checks"
    using rest by (simp add: list_all_iff valid_ref_append)
  have same: "map (deref ?st') checks = map (deref st) checks"
    "map (\<lambda>c. engineDependencies noDev ignores (deref ?st' c)) checks
       = map (\<lambda>c. engineDependencies noDev ignores (deref st c)) checks"
    using rest by (simp_all add: list_all_iff deref_append)
  have cells: "?st' ! ref_engines c = engines (deref st c)"
    "?st' ! length st = ?copy"
    "?st' ! ref_optionalDependencies c = optionalDependencies (deref st c)"
    "ref_installedDependencies c = installedDependencies (deref st c)"
    "ref_subpath c = subpath (deref st c)"
    using c by (simp_all add: valid_ref_def deref_def nth_append)
  let ?result = "checkEngineVersions ev (engines (deref st c)) ?copy
                   (installedDependencies (deref st c)) (optionalDependencies (deref st c))"
  let ?acc' = "\<lparr> errors = errors acc @ map (label (subpath (deref st c))) (errors ?result),
                  warnings = warnings acc @ map (label (subpath (deref st c))) (warnings ?result) \<rparr>"
  have "engineLoop_store ev noDev ignores (c # checks) (st, acc)
          = engineLoop_store ev noDev ignores checks (?st', ?acc')"
    by (simp add: engine_copy_store [OF c] Let_def cells)
  also have "\<dots> = (?st' @ map (\<lambda>c. engineDependencies noDev ignores (deref ?st' c)) checks,
                     engineLoop ev noDev ignores (map (deref ?st') checks) ?acc')"
    by (rule Cons.IH [OF rest'])
  also have "\<dots> = (st @ map (\<lambda>c. engineDependencies noDev ignores (deref st c)) (c # checks),
                     engineLoop ev noDev ignores (map (deref st) (c # checks)) acc)"
    by (simp add: same Let_def)
  finally show ?case .
qed

subsection \<open>Runs of \<^verbatim>\<open>installedCheck\<close>\<close>

lemma runChecks_blocks:
  "runChecks ev doVersion doEngine noDev ignores checks =
     \<lparr> errors =
         (if doVersion then block (\<lambda>c. errors (versionResult ev c)) checks else [])
         @ (if doEngine then block (\<lambda>c. errors (engineResult ev noDev ignores c)) checks else []),
       warnings =
         (if doVersion then block (\<lambda>c. warnings (versionResult ev c)) checks else [])
         @ (if doEngine then block (\<lambda>c. warnings (engineResult ev noDev ignores c)) checks
            else []),
       notices = [] \<rparr>"
  by (simp add: runChecks_def versionLoop_block engineLoop_block)

lemma installedCheck_returns:
  assumes "orElse (engineCheck opt) False \<or> orElse (versionCheck opt) False"
    and "readRoot fs sched (orElse (path opt) ''.'') = Inr (mainPackage, mainInstalled)"
    and "workspaceChecks fs sched mainPackage mainInstalled (orElse (path opt) ''.'')
           (members (orElse (traverseWorkspaces opt) True) mainPackage) = Inr memberChecks"
  shows "snd (installedCheck ev fs sched (Some opt)) =
           Inr (runChecks ev (orElse (versionCheck opt) False) (orElse (engineCheck opt) False)
                  (orElse (engineNoDev opt) False) (orElse (engineIgnores opt) [])
                  (mainCheck mainPackage mainInstalled # memberChecks))"
  using assms by (auto simp: installedCheck_def)

lemma installedCheck_returned:
  assumes "installedCheck ev fs sched (Some opt) = (log, Inr r)"
  obtains mainPackage mainInstalled memberChecks where
    "readRoot fs sched (orElse (path opt) ''.'') = Inr (mainPackage, mainInstalled)"
    "workspaceChecks fs sched mainPackage mainInstalled (orElse (path opt) ''.'')
       (members (orElse (traverseWorkspaces opt) True) mainPackage) = Inr memberChecks"
    "r = runChecks ev (orElse (versionCheck opt) False) (orElse (engineCheck opt) False)
           (orElse (engineNoDev opt) False) (orElse (engineIgnores opt) [])
           (mainCheck mainPackage mainInstalled # memberChecks)"
  using assms
  by (auto simp: installedCheck_def split: if_splits sum.splits prod.splits)


lemma workspaceChecks_settled:
  assumes "workspaceChecks fs sched mainPackage mainInstalled p ws = Inr memberChecks"
  shows "map Inr memberChecks
           = settle_order (memberPicks sched) (map (memberTask fs mainPackage mainInstalled p) ws)"
  using assms first_rejection_None
  by (fastforce simp: workspaceChecks_def split: option.splits)

lemma memberTask_subpath:
  "memberTask fs mainPackage mainInstalled p w = Inr c \<Longrightarrow> subpath c = Some (p @ ''/'' @ w)"
  by (auto simp: memberTask_def memberCheck_def subpath_of_def split: sum.splits)

lemma label_root: "label None = (\<lambda>str. str)"
  by (simp add: label_def fun_eq_iff)

lemma label_member: "sub \<noteq> [] \<Longrightarrow> label (Some sub) = prefixed sub"
  by (simp add: label_def prefixed_def fun_eq_iff)

lemma block_members:
  "list_all (\<lambda>c. \<exists>sub. subpath c = Some sub \<and> sub \<noteq> []) checks \<Longrightarrow>
     block f checks = memberLines f checks"
  by (induction checks) (auto simp: block_def memberLines_def label_member orElse_def)

lemma block_root_members:
  assumes "list_all (\<lambda>c. \<exists>sub. subpath c = Some sub \<and> sub \<noteq> []) memberChecks"
  shows "block f (mainCheck mainPackage mainInstalled # memberChecks)
           = f (mainCheck mainPackage mainInstalled) @ memberLines f memberChecks"
proof -
  have "block f (mainCheck mainPackage mainInstalled # memberChecks)
          = f (mainCheck mainPackage mainInstalled) @ block f memberChecks"
    by (simp add: block_def mainCheck_def mainRequiredDependencies_def mainOptionalDependencies_def label_root)
  with block_members [OF assms] show ?thesis by simp
qed










lemma readRoot_reads:
  "readRoot fs sched p = Inr (mainPackage, mainInstalled) \<Longrightarrow>
     readPackage fs p = Inr mainPackage \<and> listInstalled fs p = Inr mainInstalled"
  by (auto simp: readRoot_def split: sum.splits if_splits)

lemma member_of_run:
  assumes "workspaceChecks fs sched mainPackage mainInstalled p ws = Inr memberChecks"
    and "c \<in> set memberChecks"
  shows "\<exists>w \<in> set ws. memberTask fs mainPackage mainInstalled p w = Inr c"
proof -
  have "map Inr memberChecks
          = settle_order (memberPicks sched) (map (memberTask fs mainPackage mainInstalled p) ws)"
    using assms(1) by (rule workspaceChecks_settled)
  then have "mset (map Inr memberChecks)
               = mset (map (memberTask fs mainPackage mainInstalled p) ws)"
    by (simp only: mset_settle_order)
  then have "set (map Inr memberChecks) = set (map (memberTask fs mainPackage mainInstalled p) ws)"
    by (rule mset_eq_setD)
  moreover have "Inr c \<in> set (map Inr memberChecks)"
    using assms(2) by simp
  ultimately have "Inr c \<in> set (map (memberTask fs mainPackage mainInstalled p) ws)"
    by blast
  then show ?thesis by auto
qed

lemma memberTask_fulfilled:
  "memberTask fs mainPackage mainInstalled p w = Inr c \<Longrightarrow>
     \<exists>subPackage. readPackage fs (subpath_of p w) = Inr subPackage
       \<and> c = memberCheck mainPackage mainInstalled (subpath_of p w) subPackage
               (case listInstalled fs (subpath_of p w) of Inl _ \<Rightarrow> [] | Inr m \<Rightarrow> m)"
  by (auto simp: memberTask_def split: sum.splits)

lemma ignored_absent:
  "k \<in> set ignores \<Longrightarrow> map_of (engineDependencies noDev ignores c) k = None"
  by (simp add: engineDependencies_def map_of_fold_obj_delete)

lemma root_sets:
  assumes "objects_wf m" and "n \<noteq> ''__proto__''"
  shows "map_of (requiredDependencies (mainCheck m installed)) n = devOverDirect m n"
    and "map_of (optionalDependencies (mainCheck m installed)) n
           = map_of (orElse (pkg_optionalDependencies m) []) n"
    and "map_of (engineDependencies noDev ignores (mainCheck m installed)) n
           = (if n \<in> set ignores then None
              else if noDev then map_of (orElse (pkg_dependencies m) []) n
              else devOverDirect m n)"
proof -
  show req: "map_of (requiredDependencies (mainCheck m installed)) n = devOverDirect m n"
    using assms
    by (simp add: mainCheck_def mainRequiredDependencies_def objects_wf_def devOverDirect_def
          map_of_assign2)
  show "map_of (optionalDependencies (mainCheck m installed)) n
           = map_of (orElse (pkg_optionalDependencies m) []) n"
    using assms
    by (simp add: mainCheck_def mainOptionalDependencies_def objects_wf_def map_of_assign1)
  have u: "unique_keys (if noDev then dependencies (mainCheck m installed)
                        else requiredDependencies (mainCheck m installed))"
    using assms(1) unique_keys_Object_assign [of "[]"]
    by (simp add: mainCheck_def mainRequiredDependencies_def objects_wf_def unique_keys_def)
  have "dependencies (mainCheck m installed) = orElse (pkg_dependencies m) []"
    by (simp add: mainCheck_def)
  with map_of_engineDependencies [OF u assms(2), of ignores] req
  show "map_of (engineDependencies noDev ignores (mainCheck m installed)) n
           = (if n \<in> set ignores then None
              else if noDev then map_of (orElse (pkg_dependencies m) []) n
              else devOverDirect m n)"
    by simp
qed

lemma member_sets:
  assumes "objects_wf m" and "objects_wf root" and "n \<noteq> ''__proto__''"
  shows "map_of (requiredDependencies (memberCheck root rootInstalled sub m subInstalled)) n
           = devOverDirect m n"
    and "map_of (optionalDependencies (memberCheck root rootInstalled sub m subInstalled)) n
           = map_of (orElse (pkg_optionalDependencies m) []) n"
    and "map_of (engineDependencies noDev ignores
                   (memberCheck root rootInstalled sub m subInstalled)) n
           = (if n \<in> set ignores then None
              else if noDev
                   then map_of (orElse (pkg_dependencies m) (orElse (pkg_dependencies root) [])) n
              else devOverDirect m n)"
proof -
  let ?c = "memberCheck root rootInstalled sub m subInstalled"
  show req: "map_of (requiredDependencies ?c) n = devOverDirect m n"
    using assms
    by (simp add: memberCheck_def objects_wf_def devOverDirect_def map_of_assign2)
  show "map_of (optionalDependencies ?c) n = map_of (orElse (pkg_optionalDependencies m) []) n"
    using assms
    by (simp add: memberCheck_def objects_wf_def map_of_assign1)
  have deps: "dependencies ?c = orElse (pkg_dependencies m) (orElse (pkg_dependencies root) [])"
    by (simp add: memberCheck_def)
  have "unique_keys (orElse (pkg_dependencies m) (orElse (pkg_dependencies root) []))"
    using assms(1,2) by (cases "pkg_dependencies m") (simp_all add: objects_wf_def orElse_def)
  moreover have "unique_keys (requiredDependencies ?c)"
    using unique_keys_Object_assign [of "[]"] by (simp add: memberCheck_def unique_keys_def)
  ultimately have u: "unique_keys (if noDev then dependencies ?c else requiredDependencies ?c)"
    by (simp add: deps)
  from map_of_engineDependencies [OF u assms(3), of ignores] req deps
  show "map_of (engineDependencies noDev ignores ?c) n
           = (if n \<in> set ignores then None
              else if noDev
                   then map_of (orElse (pkg_dependencies m) (orElse (pkg_dependencies root) [])) n
              else devOverDirect m n)"
    by simp
qed

subsection \<open>The configuration error\<close>

text \<open>
  C4. When \<^verbatim>\<open>engineCheck\<close> and \<^verbatim>\<open>versionCheck\<close> are both \<^verbatim>\<open>false\<close> (given so, or left
  undefined, which is the default \<^verbatim>\<open>false\<close>), \<^verbatim>\<open>installedCheck\<close> throws the error
  ``Expected to run at least one check'', whatever the readers, the evaluators and the
  other options are, and it has started no read of a manifest or of an installed
  snapshot.
\<close>

theorem no_check_selected:
  assumes "engineCheck opt = Some False \<or> engineCheck opt = None"
    and "versionCheck opt = Some False \<or> versionCheck opt = None"
  shows "installedCheck ev fs sched (Some opt) =
           ([], Inl (Error
              ''Expected to run at least one check. Add engineCheck and/or versionCheck''))"
  using assms by (auto simp: installedCheck_def orElse_def)

theorem no_check_selected_witness:
  "installedCheck ex_evaluators ex_readers in_order
     (Some (ex_options \<lparr> engineCheck := Some False, versionCheck := Some False \<rparr>)) =
   ([], Inl (Error
      ''Expected to run at least one check. Add engineCheck and/or versionCheck''))"
  using no_check_selected [of "ex_options \<lparr> engineCheck := Some False, versionCheck := Some False \<rparr>"
      ex_evaluators ex_readers in_order]
  by simp

subsection \<open>The dependency sets of a context\<close>

text \<open>
  C10. When a manifest (of the root or of a workspace member) has the same package name
  in \<^verbatim>\<open>dependencies\<close> and in \<^verbatim>\<open>devDependencies\<close>, the required set of its context holds
  the range of \<^verbatim>\<open>devDependencies\<close> for that name: \<^verbatim>\<open>Object.assign\<close> copies the dev
  dependencies last. The name \<^verbatim>\<open>__proto__\<close>, which is no package name and which
  \<^verbatim>\<open>Object.assign\<close> does not copy, is set aside.
\<close>

theorem dev_range_wins:
  assumes "pkg_dependencies m = Some deps" and "pkg_devDependencies m = Some dev"
    and "unique_keys deps" and "unique_keys dev"
    and "map_of deps n = Some r1" and "map_of dev n = Some r2"
    and "n \<noteq> ''__proto__''"
  shows "map_of (requiredDependencies (mainCheck m installed)) n = Some r2
       \<and> map_of (requiredDependencies (memberCheck root rootInstalled sub m subInstalled)) n
           = Some r2"
  using assms by (simp add: mainCheck_def mainRequiredDependencies_def mainOptionalDependencies_def memberCheck_def orElse_def map_of_assign2)

theorem dev_range_wins_witness:
  "map_of (requiredDependencies (mainCheck ex_c ([] :: bool jsmap))) ''tape'' = Some ''^5.0.0''
   \<and> map_of (requiredDependencies
               (memberCheck ex_root ([] :: bool jsmap) ''./c'' ex_c [])) ''tape''
       = Some ''^5.0.0''"
  using dev_range_wins [of ex_c "[(''tape'', ''^4.0.0'')]"
      "[(''tape'', ''^5.0.0''), (''standard'', ''^17.0.0'')]" "''tape''" "''^4.0.0''" "''^5.0.0''"
      "[] :: bool jsmap" ex_root "[] :: bool jsmap" "''./c''" "[]"]
  by (simp add: ex_c_def unique_keys_def)

text \<open>
  C2, as stated, fails: the names of \<^verbatim>\<open>engineIgnores\<close> are not removed from the required
  set of a context. With \<^verbatim>\<open>left-pad\<close> and \<^verbatim>\<open>old\<close> ignored, the required set of the root
  still holds \<^verbatim>\<open>left-pad\<close>, and the version check reports it.
\<close>

theorem ignored_name_reaches_version_check:
  "map_of (requiredDependencies (mainCheck ex_root [(''old'', False)])) ''left-pad''
     = Some ''^1.0.0''
   \<and> map_of (requiredWithoutIgnored [''left-pad'', ''old''] ex_root) ''left-pad'' = None
   \<and> snd (installedCheck ex_evaluators ex_readers in_order
            (Some (ex_options \<lparr> engineIgnores := Some [''left-pad'', ''old''],
                                 traverseWorkspaces := Some False \<rparr>)))
       = Inr \<lparr> errors = [''left-pad is not installed''], warnings = [], notices = [] \<rparr>"
  by code_simp

text \<open>
  C2, amended. In a run that selects a check and reads its root and its members, for
  every manifest that the run reads, of the root or of a member, with one property for
  a name in each of its objects, and for every name but \<^verbatim>\<open>__proto__\<close>: the required set of
  its context is the direct dependencies overlaid with the dev dependencies, with no
  name removed, and it is the set that the version evaluator is handed; the optional
  set is the optional dependencies. The engine evaluator is handed a copy from which
  the names of \<^verbatim>\<open>engineIgnores\<close> are absent, for every context; apart from them the copy
  is the required set or, under \<^verbatim>\<open>engineNoDev\<close>, the \<^verbatim>\<open>dependencies\<close> of the context: the
  direct dependencies of the manifest, or those of the root for a member that declares
  none.
\<close>

theorem required_set_and_engine_copy:
  assumes wf: "\<forall>dir pkg. readPackage fs dir = Inr pkg \<longrightarrow> objects_wf pkg"
    and cfg: "orElse (engineCheck opt) False \<or> orElse (versionCheck opt) False"
    and root: "readRoot fs sched (orElse (path opt) ''.'') = Inr (mainPackage, mainInstalled)"
    and ws: "workspaceChecks fs sched mainPackage mainInstalled (orElse (path opt) ''.'')
               (members (orElse (traverseWorkspaces opt) True) mainPackage) = Inr memberChecks"
    and n: "n \<noteq> ''__proto__''"
  shows "snd (installedCheck ev fs sched (Some opt)) =
           Inr \<lparr> errors =
                   (if orElse (versionCheck opt) False
                    then block (\<lambda>c. errors (checkPackageVersions ev (requiredDependencies c)
                                              (installedDependencies c) (optionalDependencies c)))
                           (mainCheck mainPackage mainInstalled # memberChecks)
                    else [])
                   @ (if orElse (engineCheck opt) False
                      then block (\<lambda>c. errors (checkEngineVersions ev (engines c)
                                                (engineDependencies (orElse (engineNoDev opt) False)
                                                   (orElse (engineIgnores opt) []) c)
                                                (installedDependencies c) (optionalDependencies c)))
                             (mainCheck mainPackage mainInstalled # memberChecks)
                      else []),
                 warnings =
                   (if orElse (versionCheck opt) False
                    then block (\<lambda>c. warnings (checkPackageVersions ev (requiredDependencies c)
                                                (installedDependencies c) (optionalDependencies c)))
                           (mainCheck mainPackage mainInstalled # memberChecks)
                    else [])
                   @ (if orElse (engineCheck opt) False
                      then block (\<lambda>c. warnings (checkEngineVersions ev (engines c)
                                                  (engineDependencies (orElse (engineNoDev opt) False)
                                                     (orElse (engineIgnores opt) []) c)
                                                  (installedDependencies c)
                                                  (optionalDependencies c)))
                             (mainCheck mainPackage mainInstalled # memberChecks)
                      else []),
                 notices = [] \<rparr>
       \<and> readPackage fs (orElse (path opt) ''.'') = Inr mainPackage
       \<and> map_of (requiredDependencies (mainCheck mainPackage mainInstalled)) n
           = devOverDirect mainPackage n
       \<and> map_of (optionalDependencies (mainCheck mainPackage mainInstalled)) n
           = map_of (orElse (pkg_optionalDependencies mainPackage) []) n
       \<and> map_of (engineDependencies (orElse (engineNoDev opt) False)
                    (orElse (engineIgnores opt) []) (mainCheck mainPackage mainInstalled)) n
           = (if n \<in> set (orElse (engineIgnores opt) []) then None
              else if orElse (engineNoDev opt) False
                   then map_of (orElse (pkg_dependencies mainPackage) []) n
              else devOverDirect mainPackage n)
       \<and> (\<forall>c \<in> set memberChecks.
             \<exists>w \<in> set (members (orElse (traverseWorkspaces opt) True) mainPackage).
             \<exists>m. readPackage fs (subpath_of (orElse (path opt) ''.'') w) = Inr m
                \<and> subpath c = Some (subpath_of (orElse (path opt) ''.'') w)
                \<and> map_of (requiredDependencies c) n = devOverDirect m n
                \<and> map_of (optionalDependencies c) n
                    = map_of (orElse (pkg_optionalDependencies m) []) n
                \<and> map_of (engineDependencies (orElse (engineNoDev opt) False)
                             (orElse (engineIgnores opt) []) c) n
                    = (if n \<in> set (orElse (engineIgnores opt) []) then None
                       else if orElse (engineNoDev opt) False
                            then map_of (orElse (pkg_dependencies m)
                                           (orElse (pkg_dependencies mainPackage) [])) n
                       else devOverDirect m n))
       \<and> (\<forall>c \<in> set (mainCheck mainPackage mainInstalled # memberChecks).
             \<forall>k \<in> set (orElse (engineIgnores opt) []).
               map_of (engineDependencies (orElse (engineNoDev opt) False)
                         (orElse (engineIgnores opt) []) c) k = None)"
proof -
  let ?p = "orElse (path opt) ''.''"
  let ?ws = "members (orElse (traverseWorkspaces opt) True) mainPackage"
  let ?noDev = "orElse (engineNoDev opt) False"
  let ?ignores = "orElse (engineIgnores opt) []"
  have run: "snd (installedCheck ev fs sched (Some opt)) =
           Inr (runChecks ev (orElse (versionCheck opt) False) (orElse (engineCheck opt) False)
                  ?noDev ?ignores (mainCheck mainPackage mainInstalled # memberChecks))"
    using cfg root ws by (rule installedCheck_returns)
  have rootRead: "readPackage fs ?p = Inr mainPackage"
    using readRoot_reads [OF root] by (rule conjunct1)
  then have wfRoot: "objects_wf mainPackage"
    by (rule wf [rule_format])
  have member: "\<exists>w \<in> set ?ws.
             \<exists>m. readPackage fs (subpath_of ?p w) = Inr m
                \<and> subpath c = Some (subpath_of ?p w)
                \<and> map_of (requiredDependencies c) n = devOverDirect m n
                \<and> map_of (optionalDependencies c) n
                    = map_of (orElse (pkg_optionalDependencies m) []) n
                \<and> map_of (engineDependencies ?noDev ?ignores c) n
                    = (if n \<in> set ?ignores then None
                       else if ?noDev
                            then map_of (orElse (pkg_dependencies m)
                                           (orElse (pkg_dependencies mainPackage) [])) n
                       else devOverDirect m n)"
    if "c \<in> set memberChecks" for c
  proof -
    from member_of_run [OF ws that] obtain w where
      w: "w \<in> set ?ws" and task: "memberTask fs mainPackage mainInstalled ?p w = Inr c"
      by blast
    from memberTask_fulfilled [OF task] obtain m where
      m: "readPackage fs (subpath_of ?p w) = Inr m"
      and c: "c = memberCheck mainPackage mainInstalled (subpath_of ?p w) m
                    (case listInstalled fs (subpath_of ?p w) of Inl _ \<Rightarrow> [] | Inr m \<Rightarrow> m)"
      by blast
    have wfm: "objects_wf m" using m by (rule wf [rule_format])
    have sub: "subpath c = Some (subpath_of ?p w)"
      unfolding c by (simp add: memberCheck_def)
    note sets =
      member_sets(1) [OF wfm wfRoot n, where rootInstalled = mainInstalled
        and sub = "subpath_of ?p w"
        and subInstalled = "case listInstalled fs (subpath_of ?p w) of Inl _ \<Rightarrow> [] | Inr m \<Rightarrow> m",
        folded c]
      member_sets(2) [OF wfm wfRoot n, where rootInstalled = mainInstalled
        and sub = "subpath_of ?p w"
        and subInstalled = "case listInstalled fs (subpath_of ?p w) of Inl _ \<Rightarrow> [] | Inr m \<Rightarrow> m",
        folded c]
      member_sets(3) [OF wfm wfRoot n, where rootInstalled = mainInstalled
        and sub = "subpath_of ?p w"
        and subInstalled = "case listInstalled fs (subpath_of ?p w) of Inl _ \<Rightarrow> [] | Inr m \<Rightarrow> m"
        and noDev = ?noDev and ignores = ?ignores,
        folded c]
    from w m sub sets
    show ?thesis by blast
  qed
  have ignored: "\<forall>c \<in> set (mainCheck mainPackage mainInstalled # memberChecks).
             \<forall>k \<in> set ?ignores. map_of (engineDependencies ?noDev ?ignores c) k = None"
    by (simp add: ignored_absent)
  note r1 = root_sets(1) [OF wfRoot n, where installed = mainInstalled]
  note r2 = root_sets(2) [OF wfRoot n, where installed = mainInstalled]
  note r3 = root_sets(3) [OF wfRoot n, where installed = mainInstalled and noDev = ?noDev
      and ignores = ?ignores]
  note result = run [unfolded runChecks_blocks versionResult_def engineResult_def]
  from member have members: "\<forall>c \<in> set memberChecks.
             \<exists>w \<in> set ?ws.
             \<exists>m. readPackage fs (subpath_of ?p w) = Inr m
                \<and> subpath c = Some (subpath_of ?p w)
                \<and> map_of (requiredDependencies c) n = devOverDirect m n
                \<and> map_of (optionalDependencies c) n
                    = map_of (orElse (pkg_optionalDependencies m) []) n
                \<and> map_of (engineDependencies ?noDev ?ignores c) n
                    = (if n \<in> set ?ignores then None
                       else if ?noDev
                            then map_of (orElse (pkg_dependencies m)
                                           (orElse (pkg_dependencies mainPackage) [])) n
                       else devOverDirect m n)"
    by (rule ballI)
  show ?thesis
    by (intro conjI) (fact result, fact rootRead, fact r1, fact r2, fact r3, fact members,
        fact ignored)
qed

theorem required_set_and_engine_copy_witness:
  "snd (installedCheck ex_evaluators ex_readers in_order
          (Some (ex_options \<lparr> engineIgnores := Some [''old''], engineNoDev := Some True \<rparr>)))
     = Inr \<lparr> errors = [''left-pad is not installed'', ''[./a] chalk is not installed'',
                        ''[./b] tape is not installed'']
                       @ [''[./a] legacy engine mismatch''],
             warnings = [] @ [], notices = [] \<rparr>
   \<and> map_of (requiredDependencies (mainCheck ex_root [(''old'', False)])) ''old''
       = Some ''^1.0.0''
   \<and> map_of (engineDependencies True [''old''] (mainCheck ex_root [(''old'', False)])) ''old''
       = None
   \<and> map_of (engineDependencies True [''old'']
                (memberCheck ex_root [(''old'', False)] ''./b'' ex_b [])) ''left-pad''
       = Some ''^1.0.0''"
proof -
  let ?opt = "ex_options \<lparr> engineIgnores := Some [''old''], engineNoDev := Some True \<rparr>"
  let ?b = "memberCheck ex_root [(''old'', False)] ''./b'' ex_b []"
  let ?checks = "[mainCheck ex_root [(''old'', False)],
                  memberCheck ex_root [(''old'', False)] ''./a'' ex_a [(''legacy'', False)], ?b]"
  have wf: "\<forall>dir pkg. readPackage ex_readers dir = Inr pkg \<longrightarrow> objects_wf pkg"
    by (auto simp: ex_readers_def ex_root_def ex_a_def ex_b_def objects_wf_def unique_keys_def
          orElse_def split: if_splits)
  have cfg: "orElse (engineCheck ?opt) False \<or> orElse (versionCheck ?opt) False"
    by (simp add: ex_options_def orElse_def)
  have root: "readRoot ex_readers in_order (orElse (path ?opt) ''.'')
                = Inr (ex_root, [(''old'', False)])"
    by code_simp
  have ws: "workspaceChecks ex_readers in_order ex_root [(''old'', False)]
              (orElse (path ?opt) ''.'')
              (members (orElse (traverseWorkspaces ?opt) True) ex_root)
            = Inr [memberCheck ex_root [(''old'', False)] ''./a'' ex_a [(''legacy'', False)], ?b]"
    by code_simp
  have mem: "members True ex_root = [''a'', ''b'']"
    by code_simp
  have n: "''old'' \<noteq> ''__proto__''" "''left-pad'' \<noteq> ''__proto__''"
    by simp_all
  note old = required_set_and_engine_copy [OF wf cfg root ws n(1), where ev = ex_evaluators]
  note pad = required_set_and_engine_copy [OF wf cfg root ws n(2), where ev = ex_evaluators]
  have b1: "block (\<lambda>c. errors (checkPackageVersions ex_evaluators (requiredDependencies c)
                                  (installedDependencies c) (optionalDependencies c))) ?checks
            = [''left-pad is not installed'', ''[./a] chalk is not installed'',
               ''[./b] tape is not installed'']"
    by code_simp
  have b2: "block (\<lambda>c. errors (checkEngineVersions ex_evaluators (engines c)
                                  (engineDependencies True [''old''] c)
                                  (installedDependencies c) (optionalDependencies c))) ?checks
            = [''[./a] legacy engine mismatch'']"
    by code_simp
  have b3: "block (\<lambda>c. warnings (checkPackageVersions ex_evaluators (requiredDependencies c)
                                    (installedDependencies c) (optionalDependencies c))) ?checks
            = []"
    by code_simp
  have b4: "block (\<lambda>c. warnings (checkEngineVersions ex_evaluators (engines c)
                                    (engineDependencies True [''old''] c)
                                    (installedDependencies c) (optionalDependencies c))) ?checks
            = []"
    by code_simp
  have run: "snd (installedCheck ex_evaluators ex_readers in_order (Some ?opt))
     = Inr \<lparr> errors = [''left-pad is not installed'', ''[./a] chalk is not installed'',
                        ''[./b] tape is not installed'']
                       @ [''[./a] legacy engine mismatch''],
             warnings = [] @ [], notices = [] \<rparr>"
    using old by (elim conjE) (simp add: orElse_def ex_options_def b1 b2 b3 b4)
  have "devOverDirect ex_root ''old'' = Some ''^1.0.0''"
    by code_simp
  then have req: "map_of (requiredDependencies (mainCheck ex_root [(''old'', False)])) ''old''
               = Some ''^1.0.0''"
    using old by (elim conjE) simp
  have copy: "map_of (engineDependencies True [''old''] (mainCheck ex_root [(''old'', False)]))
                ''old'' = None"
    using old by (elim conjE) (simp add: orElse_def ex_options_def)
  note members_facts = pad [THEN conjunct2, THEN conjunct2, THEN conjunct2, THEN conjunct2,
      THEN conjunct2, THEN conjunct1, rule_format, of ?b]
  have wsv: "members (orElse (traverseWorkspaces ?opt) True) ex_root = [''a'', ''b'']"
    and pv: "orElse (path ?opt) ''.'' = ''.''"
    by code_simp+
  have "?b \<in> set [memberCheck ex_root [(''old'', False)] ''./a'' ex_a [(''legacy'', False)], ?b]"
    by simp
  from members_facts [OF this] obtain w m where
    w: "w \<in> set (members (orElse (traverseWorkspaces ?opt) True) ex_root)"
    and m: "readPackage ex_readers (subpath_of (orElse (path ?opt) ''.'') w) = Inr m"
    and sub: "subpath ?b = Some (subpath_of (orElse (path ?opt) ''.'') w)"
    and eng: "map_of (engineDependencies (orElse (engineNoDev ?opt) False)
                        (orElse (engineIgnores ?opt) []) ?b) ''left-pad''
                = (if ''left-pad'' \<in> set (orElse (engineIgnores ?opt) []) then None
                   else if orElse (engineNoDev ?opt) False
                        then map_of (orElse (pkg_dependencies m)
                                       (orElse (pkg_dependencies ex_root) [])) ''left-pad''
                   else devOverDirect m ''left-pad'')"
    by blast
  have "w = ''a'' \<or> w = ''b''"
    using w unfolding wsv by simp
  then have "w = ''b''"
    using sub unfolding pv by (auto simp: memberCheck_def subpath_of_def)
  then have "m = ex_b"
    using m unfolding pv by (simp add: ex_readers_def subpath_of_def)
  then have fallback: "map_of (engineDependencies True [''old''] ?b) ''left-pad''
                         = Some ''^1.0.0''"
    using eng by (simp add: ex_b_def ex_root_def ex_options_def orElse_def)
  from run req copy fallback show ?thesis
    by (intro conjI)
qed

text \<open>
  C7, as stated, fails for an empty field: the member \<^verbatim>\<open>a\<close> declares \<^verbatim>\<open>engines: {}\<close>, an
  object and so truthy, and its context has no engines, not the engines of the root.
\<close>

theorem empty_field_is_not_absent:
  "pkg_engines ex_a = Some []
   \<and> engines (memberCheck ex_root [(''old'', False)] ''./a'' ex_a [(''legacy'', False)])
       \<noteq> orElse (pkg_engines ex_root) []"
  by (simp add: memberCheck_def ex_a_def ex_root_def orElse_def)

text \<open>
  C7, amended. When the manifest of a member has no \<^verbatim>\<open>engines\<close> field (no
  \<^verbatim>\<open>dependencies\<close> field), the \<^verbatim>\<open>engines\<close> (\<^verbatim>\<open>dependencies\<close>) of its context are those of the
  root manifest, in full, or empty when the root has none; when the member declares the
  field, also as an empty object, the context has the member's own object, whatever the
  root declares.
\<close>

theorem member_fallback_when_absent:
  "(pkg_engines subPackage = None \<longrightarrow>
      engines (memberCheck mainPackage mainInstalled sub subPackage subInstalled)
        = orElse (pkg_engines mainPackage) [])
   \<and> (pkg_dependencies subPackage = None \<longrightarrow>
      dependencies (memberCheck mainPackage mainInstalled sub subPackage subInstalled)
        = orElse (pkg_dependencies mainPackage) [])
   \<and> (\<forall>e. pkg_engines subPackage = Some e \<longrightarrow>
      engines (memberCheck mainPackage mainInstalled sub subPackage subInstalled) = e)
   \<and> (\<forall>d. pkg_dependencies subPackage = Some d \<longrightarrow>
      dependencies (memberCheck mainPackage mainInstalled sub subPackage subInstalled) = d)"
  by (simp add: memberCheck_def orElse_def)

theorem member_fallback_when_absent_witness:
  "engines (memberCheck ex_root ([] :: bool jsmap) ''./b'' ex_b []) = [(''node'', ''>=18.0.0'')]
   \<and> dependencies (memberCheck ex_root ([] :: bool jsmap) ''./b'' ex_b [])
       = [(''left-pad'', ''^1.0.0''), (''old'', ''^1.0.0'')]
   \<and> engines (memberCheck ex_root ([] :: bool jsmap) ''./a'' ex_a []) = []
   \<and> dependencies (memberCheck ex_root ([] :: bool jsmap) ''./a'' ex_a [])
       = [(''chalk'', ''^2.0.0''), (''legacy'', ''^1.0.0'')]"
  using member_fallback_when_absent [of ex_b ex_root "[] :: bool jsmap" "''./b''" "[]"]
    member_fallback_when_absent [of ex_a ex_root "[] :: bool jsmap" "''./a''" "[]"]
  by (simp add: ex_a_def ex_b_def ex_root_def orElse_def)

subsection \<open>The installed snapshot of a member\<close>

text \<open>
  C8. The installed snapshot of a member context is the snapshot of the root overlaid
  with the member's own: a name of the member's snapshot has the member's entry, any
  other name has the entry of the root, if any. The overlay writes to a new Map only: on
  a store, the new Map is a new cell, and every Map that was there before, the snapshot
  of the root among them, is as it was. In a run that returns, the context of the root
  has the snapshot that was read for the root, and each member context has the overlay
  of that snapshot with the snapshot read in the member's own directory (the empty one
  when that read failed); these are the contexts the evaluators are run on.
\<close>

theorem member_snapshot_overlay:
  assumes "unique_keys mainInstalled" and "unique_keys subInstalled"
    and "mainAddr < length st" and "subAddr < length st"
  shows "map_of (installedDependencies
                   (memberCheck mainPackage mainInstalled sub subPackage subInstalled)) name
           = (case map_of subInstalled name of
                None \<Rightarrow> map_of mainInstalled name
              | Some installed \<Rightarrow> Some installed)
       \<and> installedDependencies (mainCheck mainPackage mainInstalled) = mainInstalled
       \<and> fst (overlay_store mainAddr subAddr st) = length st
       \<and> snd (overlay_store mainAddr subAddr st) ! length st
           = overlay (st ! mainAddr) (st ! subAddr)
       \<and> take (length st) (snd (overlay_store mainAddr subAddr st)) = st
       \<and> map_of (overlay mainInstalled subInstalled) name
           = (case map_of subInstalled name of
                None \<Rightarrow> map_of mainInstalled name
              | Some installed \<Rightarrow> Some installed)
       \<and> (\<forall>log r. installedCheck ev fs sched (Some opt) = (log, Inr r) \<longrightarrow>
             (\<exists>rootPackage rootInstalled memberChecks.
                readPackage fs (orElse (path opt) ''.'') = Inr rootPackage
              \<and> listInstalled fs (orElse (path opt) ''.'') = Inr rootInstalled
              \<and> r = runChecks ev (orElse (versionCheck opt) False)
                        (orElse (engineCheck opt) False) (orElse (engineNoDev opt) False)
                        (orElse (engineIgnores opt) [])
                        (mainCheck rootPackage rootInstalled # memberChecks)
              \<and> installedDependencies (mainCheck rootPackage rootInstalled) = rootInstalled
              \<and> mset (map Inr memberChecks)
                  = mset (map (memberTask fs rootPackage rootInstalled (orElse (path opt) ''.''))
                            (members (orElse (traverseWorkspaces opt) True) rootPackage))
              \<and> (\<forall>c \<in> set memberChecks.
                    \<exists>w \<in> set (members (orElse (traverseWorkspaces opt) True) rootPackage).
                      subpath c = Some (subpath_of (orElse (path opt) ''.'') w)
                    \<and> installedDependencies c
                        = overlay rootInstalled
                            (case listInstalled fs (subpath_of (orElse (path opt) ''.'') w) of
                               Inl _ \<Rightarrow> []
                             | Inr memberInstalled \<Rightarrow> memberInstalled))))"
proof -
  let ?p = "orElse (path opt) ''.''"
  have run: "\<exists>rootPackage rootInstalled memberChecks.
                readPackage fs ?p = Inr rootPackage
              \<and> listInstalled fs ?p = Inr rootInstalled
              \<and> r = runChecks ev (orElse (versionCheck opt) False)
                        (orElse (engineCheck opt) False) (orElse (engineNoDev opt) False)
                        (orElse (engineIgnores opt) [])
                        (mainCheck rootPackage rootInstalled # memberChecks)
              \<and> installedDependencies (mainCheck rootPackage rootInstalled) = rootInstalled
              \<and> mset (map Inr memberChecks)
                  = mset (map (memberTask fs rootPackage rootInstalled ?p)
                            (members (orElse (traverseWorkspaces opt) True) rootPackage))
              \<and> (\<forall>c \<in> set memberChecks.
                    \<exists>w \<in> set (members (orElse (traverseWorkspaces opt) True) rootPackage).
                      subpath c = Some (subpath_of ?p w)
                    \<and> installedDependencies c
                        = overlay rootInstalled
                            (case listInstalled fs (subpath_of ?p w) of
                               Inl _ \<Rightarrow> []
                             | Inr memberInstalled \<Rightarrow> memberInstalled))"
    if "installedCheck ev fs sched (Some opt) = (log, Inr r)" for log r
  proof -
    from that obtain rootPackage rootInstalled memberChecks where
      root: "readRoot fs sched ?p = Inr (rootPackage, rootInstalled)"
      and ws: "workspaceChecks fs sched rootPackage rootInstalled ?p
                 (members (orElse (traverseWorkspaces opt) True) rootPackage) = Inr memberChecks"
      and r: "r = runChecks ev (orElse (versionCheck opt) False) (orElse (engineCheck opt) False)
                    (orElse (engineNoDev opt) False) (orElse (engineIgnores opt) [])
                    (mainCheck rootPackage rootInstalled # memberChecks)"
      by (rule installedCheck_returned)
    let ?ws = "members (orElse (traverseWorkspaces opt) True) rootPackage"
    note reads = readRoot_reads [OF root]
    have "map Inr memberChecks
            = settle_order (memberPicks sched) (map (memberTask fs rootPackage rootInstalled ?p) ?ws)"
      using ws by (rule workspaceChecks_settled)
    then have ms: "mset (map Inr memberChecks)
                     = mset (map (memberTask fs rootPackage rootInstalled ?p) ?ws)"
      by (simp only: mset_settle_order)
    have each: "\<exists>w \<in> set ?ws.
                  subpath c = Some (subpath_of ?p w)
                \<and> installedDependencies c
                    = overlay rootInstalled
                        (case listInstalled fs (subpath_of ?p w) of
                           Inl _ \<Rightarrow> []
                         | Inr memberInstalled \<Rightarrow> memberInstalled)"
      if "c \<in> set memberChecks" for c
    proof -
      from member_of_run [OF ws that] obtain w where
        w: "w \<in> set ?ws" and task: "memberTask fs rootPackage rootInstalled ?p w = Inr c"
        by blast
      from memberTask_fulfilled [OF task] obtain m where
        "c = memberCheck rootPackage rootInstalled (subpath_of ?p w) m
               (case listInstalled fs (subpath_of ?p w) of Inl _ \<Rightarrow> [] | Inr m \<Rightarrow> m)"
        by blast
      then have "subpath c = Some (subpath_of ?p w)
                \<and> installedDependencies c
                    = overlay rootInstalled
                        (case listInstalled fs (subpath_of ?p w) of
                           Inl _ \<Rightarrow> []
                         | Inr memberInstalled \<Rightarrow> memberInstalled)"
        by (simp add: memberCheck_def)
      with w show ?thesis by blast
    qed
    have "installedDependencies (mainCheck rootPackage rootInstalled) = rootInstalled"
      by (simp add: mainCheck_def)
    with reads r ms each show ?thesis by blast
  qed
  have on_values: "map_of (installedDependencies
                   (memberCheck mainPackage mainInstalled sub subPackage subInstalled)) name
           = (case map_of subInstalled name of
                None \<Rightarrow> map_of mainInstalled name
              | Some installed \<Rightarrow> Some installed)
       \<and> installedDependencies (mainCheck mainPackage mainInstalled) = mainInstalled
       \<and> fst (overlay_store mainAddr subAddr st) = length st
       \<and> snd (overlay_store mainAddr subAddr st) ! length st
           = overlay (st ! mainAddr) (st ! subAddr)
       \<and> take (length st) (snd (overlay_store mainAddr subAddr st)) = st
       \<and> map_of (overlay mainInstalled subInstalled) name
           = (case map_of subInstalled name of
                None \<Rightarrow> map_of mainInstalled name
              | Some installed \<Rightarrow> Some installed)"
    using assms
    by (simp add: overlay_store_eq memberCheck_def mainCheck_def map_of_overlay)
  from on_values run show ?thesis by blast
qed

theorem member_snapshot_overlay_witness:
  "map_of (installedDependencies
             (memberCheck ex_root [(''old'', False), (''legacy'', True)] ''./a'' ex_a
                [(''legacy'', False)])) ''legacy'' = Some False
   \<and> map_of (installedDependencies
             (memberCheck ex_root [(''old'', False), (''legacy'', True)] ''./a'' ex_a
                [(''legacy'', False)])) ''old'' = Some False
   \<and> snd (overlay_store 0 1 [[(''old'', False), (''legacy'', True)], [(''legacy'', False)]])
       = [[(''old'', False), (''legacy'', True)], [(''legacy'', False)],
          [(''old'', False), (''legacy'', False)]]
   \<and> (\<exists>rootPackage rootInstalled memberChecks.
         readPackage
           (ex_readers \<lparr> listInstalled :=
              (listInstalled ex_readers)(''.'' := Inr [(''old'', False), (''legacy'', True)]) \<rparr>)
           (orElse (path ex_options) ''.'') = Inr rootPackage
       \<and> listInstalled
           (ex_readers \<lparr> listInstalled :=
              (listInstalled ex_readers)(''.'' := Inr [(''old'', False), (''legacy'', True)]) \<rparr>)
           (orElse (path ex_options) ''.'') = Inr rootInstalled
       \<and> \<lparr> errors = [''left-pad is not installed'', ''[./a] chalk is not installed'',
                      ''[./b] tape is not installed'', ''old engine mismatch'',
                      ''[./a] legacy engine mismatch''],
           warnings = [], notices = [] \<rparr>
           = runChecks ex_evaluators (orElse (versionCheck ex_options) False)
               (orElse (engineCheck ex_options) False) (orElse (engineNoDev ex_options) False)
               (orElse (engineIgnores ex_options) [])
               (mainCheck rootPackage rootInstalled # memberChecks)
       \<and> installedDependencies (mainCheck rootPackage rootInstalled) = rootInstalled
       \<and> mset (map Inr memberChecks)
           = mset (map (memberTask
                          (ex_readers \<lparr> listInstalled :=
                             (listInstalled ex_readers)
                               (''.'' := Inr [(''old'', False), (''legacy'', True)]) \<rparr>)
                          rootPackage rootInstalled (orElse (path ex_options) ''.''))
                     (members (orElse (traverseWorkspaces ex_options) True) rootPackage))
       \<and> (\<forall>c \<in> set memberChecks.
             \<exists>w \<in> set (members (orElse (traverseWorkspaces ex_options) True) rootPackage).
               subpath c = Some (subpath_of (orElse (path ex_options) ''.'') w)
             \<and> installedDependencies c
                 = overlay rootInstalled
                     (case listInstalled
                             (ex_readers \<lparr> listInstalled :=
                                (listInstalled ex_readers)
                                  (''.'' := Inr [(''old'', False), (''legacy'', True)]) \<rparr>)
                             (subpath_of (orElse (path ex_options) ''.'') w) of
                        Inl _ \<Rightarrow> []
                      | Inr memberInstalled \<Rightarrow> memberInstalled)))"
proof -
  let ?fs = "ex_readers \<lparr> listInstalled :=
               (listInstalled ex_readers)(''.'' := Inr [(''old'', False), (''legacy'', True)]) \<rparr>"
  have u: "unique_keys [(''old'', False), (''legacy'', True)]" "unique_keys [(''legacy'', False)]"
    by (simp_all add: unique_keys_def)
  have a: "(0::nat) < length [[(''old'', False), (''legacy'', True)], [(''legacy'', False)]]"
    "(1::nat) < length [[(''old'', False), (''legacy'', True)], [(''legacy'', False)]]"
    by simp_all
  note t1 = member_snapshot_overlay [OF u a, where name = "''legacy''" and mainPackage = ex_root
      and sub = "''./a''" and subPackage = ex_a and ev = ex_evaluators and fs = ?fs
      and sched = in_order and opt = ex_options]
  note t2 = member_snapshot_overlay [OF u a, where name = "''old''" and mainPackage = ex_root
      and sub = "''./a''" and subPackage = ex_a and ev = ex_evaluators and fs = ?fs
      and sched = in_order and opt = ex_options]
  have run: "installedCheck ex_evaluators ?fs in_order (Some ex_options)
       = ([ReadPackage ''.'', ListInstalled ''.'', ReadPackage ''./a'', ListInstalled ''./a'',
           ReadPackage ''./b'', ListInstalled ''./b''],
          Inr \<lparr> errors = [''left-pad is not installed'', ''[./a] chalk is not installed'',
                           ''[./b] tape is not installed'', ''old engine mismatch'',
                           ''[./a] legacy engine mismatch''],
                warnings = [], notices = [] \<rparr>)"
    by code_simp
  note t3 = t1 [THEN conjunct2, THEN conjunct2, THEN conjunct2, THEN conjunct2, THEN conjunct2,
      THEN conjunct2, rule_format, OF run]
  have l1: "map_of (installedDependencies
             (memberCheck ex_root [(''old'', False), (''legacy'', True)] ''./a'' ex_a
                [(''legacy'', False)])) ''legacy'' = Some False"
    using t1 [THEN conjunct1] by simp
  have l2: "map_of (installedDependencies
             (memberCheck ex_root [(''old'', False), (''legacy'', True)] ''./a'' ex_a
                [(''legacy'', False)])) ''old'' = Some False"
    using t2 [THEN conjunct1] by simp
  have st: "snd (overlay_store 0 1 [[(''old'', False), (''legacy'', True)], [(''legacy'', False)]])
       = [[(''old'', False), (''legacy'', True)], [(''legacy'', False)],
          [(''old'', False), (''legacy'', False)]]"
    by (simp add: overlay_store_def new_Map_def)
  from l1 l2 st t3 show ?thesis
    by (intro conjI)
qed

subsection \<open>The engine check and the stored dependency sets\<close>

text \<open>
  C6. The engine check does not change the dependency sets that the contexts store. On
  a store of objects, with contexts that refer to their objects: after the engine loop,
  every object that was in the store before is as it was, so every context dereferences
  to what it did; the loop has added one new object per context, the copy of the
  required set (of the direct dependencies under \<^verbatim>\<open>engineNoDev\<close>) without the names of
  \<^verbatim>\<open>engineIgnores\<close>; and its lines are those of the loop on values, where the evaluator
  is handed that copy.
\<close>

theorem engine_check_leaves_contexts_unchanged:
  assumes "list_all (valid_ref st) checks"
  shows "take (length st) (fst (engineLoop_store ev noDev ignores checks (st, acc))) = st
       \<and> map (deref (fst (engineLoop_store ev noDev ignores checks (st, acc)))) checks
           = map (deref st) checks
       \<and> drop (length st) (fst (engineLoop_store ev noDev ignores checks (st, acc)))
           = map (\<lambda>c. fold obj_delete ignores
                         (Object_assign []
                            [if noDev then dependencies (deref st c)
                             else requiredDependencies (deref st c)])) checks
       \<and> snd (engineLoop_store ev noDev ignores checks (st, acc))
           = engineLoop ev noDev ignores (map (deref st) checks) acc"
proof -
  have "map (deref (st @ map (\<lambda>c. engineDependencies noDev ignores (deref st c)) checks)) checks
          = map (deref st) checks"
    using assms by (simp add: list_all_iff deref_append)
  then show ?thesis
    by (simp add: engineLoop_store_eq [OF assms] engineDependencies_def)
qed

theorem engine_check_leaves_contexts_unchanged_witness:
  "fst (engineLoop_store ex_evaluators False [''old''] [ex_ref]
          (ex_store, \<lparr> errors = [], warnings = [] \<rparr>))
     = ex_store @ [[(''left-pad'', ''^1.0.0''), (''tape'', ''^5.0.0'')]]
   \<and> deref (fst (engineLoop_store ex_evaluators False [''old''] [ex_ref]
                 (ex_store, \<lparr> errors = [], warnings = [] \<rparr>))) ex_ref
     = deref ex_store ex_ref
   \<and> snd (engineLoop_store ex_evaluators False [''old''] [ex_ref]
          (ex_store, \<lparr> errors = [], warnings = [] \<rparr>))
     = \<lparr> errors = [], warnings = [] \<rparr>"
proof -
  define R where
    "R = engineLoop_store ex_evaluators False [''old''] [ex_ref]
           (ex_store, \<lparr> errors = [], warnings = [] \<rparr>)"
  have v: "list_all (valid_ref ex_store) [ex_ref]"
    by (simp add: valid_ref_def ex_store_def ex_ref_def)
  note t = engine_check_leaves_contexts_unchanged [OF v, of ex_evaluators False "[''old'']"
      "\<lparr> errors = [], warnings = [] \<rparr>", folded R_def]
  have copy: "fold obj_delete [''old'']
                (Object_assign [] [requiredDependencies (deref ex_store ex_ref)])
              = [(''left-pad'', ''^1.0.0''), (''tape'', ''^5.0.0'')]"
    by code_simp
  have run: "engineLoop ex_evaluators False [''old''] [deref ex_store ex_ref]
               \<lparr> errors = [], warnings = [] \<rparr> = \<lparr> errors = [], warnings = [] \<rparr>"
    by code_simp
  have "fst R = take (length ex_store) (fst R) @ drop (length ex_store) (fst R)"
    by simp
  also have "take (length ex_store) (fst R) = ex_store"
    using t by (elim conjE)
  also have "drop (length ex_store) (fst R)
               = [[(''left-pad'', ''^1.0.0''), (''tape'', ''^5.0.0'')]]"
    using t copy by (elim conjE) simp
  finally have store: "fst R = ex_store @ [[(''left-pad'', ''^1.0.0''), (''tape'', ''^5.0.0'')]]" .
  have ctx: "deref (fst R) ex_ref = deref ex_store ex_ref"
    using t by (elim conjE) simp
  have out: "snd R = \<lparr> errors = [], warnings = [] \<rparr>"
    using t run by (elim conjE) simp
  from store ctx out show ?thesis
    unfolding R_def by (intro conjI)
qed

subsection \<open>The order of the lines\<close>

text \<open>
  C1, as stated, fails: the lines are not ordered by context first. With the root and
  the members \<^verbatim>\<open>a\<close> and \<^verbatim>\<open>b\<close> and both checks enabled, the version lines of the members
  come before the engine line of the root.
\<close>

theorem order_is_not_by_context:
  "snd (installedCheck ex_evaluators ex_readers in_order (Some ex_options))
     = Inr \<lparr> errors = [''left-pad is not installed'', ''[./a] chalk is not installed'',
                        ''[./b] tape is not installed'', ''old engine mismatch'',
                        ''[./a] legacy engine mismatch''],
             warnings = [], notices = [] \<rparr>
   \<and> byContext ex_evaluators False []
         [mainCheck ex_root [(''old'', False)],
          memberCheck ex_root [(''old'', False)] ''./a'' ex_a [(''legacy'', False)],
          memberCheck ex_root [(''old'', False)] ''./b'' ex_b []]
     = [''left-pad is not installed'', ''old engine mismatch'',
        ''[./a] chalk is not installed'', ''[./a] legacy engine mismatch'',
        ''[./b] tape is not installed'']
   \<and> [''left-pad is not installed'', ''[./a] chalk is not installed'',
        ''[./b] tape is not installed'', ''old engine mismatch'',
        ''[./a] legacy engine mismatch'']
     \<noteq> [''left-pad is not installed'', ''old engine mismatch'',
         ''[./a] chalk is not installed'', ''[./a] legacy engine mismatch'',
         ''[./b] tape is not installed'']"
  by code_simp

text \<open>
  C1, amended. With both checks enabled, the errors of a run that returns are the version
  lines of all contexts followed by the engine lines of all contexts; inside each of the
  two groups the lines follow the order of the contexts, and for one context the order
  in which the evaluator returned them. The warnings likewise.
\<close>

theorem lines_grouped_by_evaluator:
  assumes "versionCheck opt = Some True" and "engineCheck opt = Some True"
    and "readRoot fs sched (orElse (path opt) ''.'') = Inr (mainPackage, mainInstalled)"
    and "workspaceChecks fs sched mainPackage mainInstalled (orElse (path opt) ''.'')
           (members (orElse (traverseWorkspaces opt) True) mainPackage) = Inr memberChecks"
  shows "snd (installedCheck ev fs sched (Some opt)) =
           Inr \<lparr> errors =
                   block (\<lambda>c. errors (versionResult ev c))
                     (mainCheck mainPackage mainInstalled # memberChecks)
                   @ block (\<lambda>c. errors (engineResult ev (orElse (engineNoDev opt) False)
                                           (orElse (engineIgnores opt) []) c))
                       (mainCheck mainPackage mainInstalled # memberChecks),
                 warnings =
                   block (\<lambda>c. warnings (versionResult ev c))
                     (mainCheck mainPackage mainInstalled # memberChecks)
                   @ block (\<lambda>c. warnings (engineResult ev (orElse (engineNoDev opt) False)
                                             (orElse (engineIgnores opt) []) c))
                       (mainCheck mainPackage mainInstalled # memberChecks),
                 notices = [] \<rparr>"
proof -
  have "orElse (engineCheck opt) False \<or> orElse (versionCheck opt) False"
    using assms(2) by (simp add: orElse_def)
  from installedCheck_returns [OF this assms(3,4)] assms(1,2) show ?thesis
    by (simp add: runChecks_blocks orElse_def)
qed

theorem lines_grouped_by_evaluator_witness:
  "snd (installedCheck ex_evaluators ex_readers last_first (Some ex_options))
     = Inr \<lparr> errors = [''left-pad is not installed'', ''[./b] tape is not installed'',
                        ''[./a] chalk is not installed''] 
                       @ [''old engine mismatch'', ''[./a] legacy engine mismatch''],
             warnings = [] @ [], notices = [] \<rparr>"
proof -
  have v: "versionCheck ex_options = Some True" and e: "engineCheck ex_options = Some True"
    by (simp_all add: ex_options_def)
  have root: "readRoot ex_readers last_first (orElse (path ex_options) ''.'')
                = Inr (ex_root, [(''old'', False)])"
    by code_simp
  have ws: "workspaceChecks ex_readers last_first ex_root [(''old'', False)]
              (orElse (path ex_options) ''.'')
              (members (orElse (traverseWorkspaces ex_options) True) ex_root)
            = Inr [memberCheck ex_root [(''old'', False)] ''./b'' ex_b [],
                   memberCheck ex_root [(''old'', False)] ''./a'' ex_a [(''legacy'', False)]]"
    by code_simp
  note t = lines_grouped_by_evaluator [OF v e root ws, of ex_evaluators]
  have b1: "block (\<lambda>c. errors (versionResult ex_evaluators c))
              [mainCheck ex_root [(''old'', False)],
               memberCheck ex_root [(''old'', False)] ''./b'' ex_b [],
               memberCheck ex_root [(''old'', False)] ''./a'' ex_a [(''legacy'', False)]]
            = [''left-pad is not installed'', ''[./b] tape is not installed'',
               ''[./a] chalk is not installed'']"
    by code_simp
  have b2: "block (\<lambda>c. errors (engineResult ex_evaluators (orElse (engineNoDev ex_options) False)
                                   (orElse (engineIgnores ex_options) []) c))
              [mainCheck ex_root [(''old'', False)],
               memberCheck ex_root [(''old'', False)] ''./b'' ex_b [],
               memberCheck ex_root [(''old'', False)] ''./a'' ex_a [(''legacy'', False)]]
            = [''old engine mismatch'', ''[./a] legacy engine mismatch'']"
    by code_simp
  have b3: "block (\<lambda>c. warnings (versionResult ex_evaluators c))
              [mainCheck ex_root [(''old'', False)],
               memberCheck ex_root [(''old'', False)] ''./b'' ex_b [],
               memberCheck ex_root [(''old'', False)] ''./a'' ex_a [(''legacy'', False)]]
            = []"
    by code_simp
  have b4: "block (\<lambda>c. warnings (engineResult ex_evaluators (orElse (engineNoDev ex_options) False)
                                   (orElse (engineIgnores ex_options) []) c))
              [mainCheck ex_root [(''old'', False)],
               memberCheck ex_root [(''old'', False)] ''./b'' ex_b [],
               memberCheck ex_root [(''old'', False)] ''./a'' ex_a [(''legacy'', False)]]
            = []"
    by code_simp
  from t show ?thesis
    unfolding b1 b2 b3 b4 .
qed

text \<open>
  C3, as stated, fails: member lines do not all come after the lines of the root. With
  both checks enabled (here with \<^verbatim>\<open>engineNoDev\<close>), the version lines of \<^verbatim>\<open>a\<close> and \<^verbatim>\<open>b\<close>
  precede the engine line of the root.
\<close>

theorem member_line_before_root_line:
  "snd (installedCheck ex_evaluators ex_readers in_order
          (Some (ex_options \<lparr> engineNoDev := Some True \<rparr>)))
     = Inr \<lparr> errors = [''left-pad is not installed'', ''[./a] chalk is not installed'',
                        ''[./b] tape is not installed'', ''old engine mismatch'',
                        ''[./a] legacy engine mismatch'', ''[./b] old engine mismatch''],
             warnings = [], notices = [] \<rparr>
   \<and> rootThenMembers ex_evaluators True [] (mainCheck ex_root [(''old'', False)])
         [memberCheck ex_root [(''old'', False)] ''./a'' ex_a [(''legacy'', False)],
          memberCheck ex_root [(''old'', False)] ''./b'' ex_b []]
     = [''left-pad is not installed'', ''old engine mismatch'',
        ''[./a] chalk is not installed'', ''[./a] legacy engine mismatch'',
        ''[./b] tape is not installed'', ''[./b] old engine mismatch'']
   \<and> [''left-pad is not installed'', ''[./a] chalk is not installed'',
        ''[./b] tape is not installed'', ''old engine mismatch'',
        ''[./a] legacy engine mismatch'', ''[./b] old engine mismatch'']
     \<noteq> [''left-pad is not installed'', ''old engine mismatch'',
         ''[./a] chalk is not installed'', ''[./a] legacy engine mismatch'',
         ''[./b] tape is not installed'', ''[./b] old engine mismatch'']"
  by code_simp

text \<open>
  C3, amended. In a run that returns, there is one member context for each traversed
  member of the manifest, each with the subpath \<^verbatim>\<open>path/member\<close>; the errors are the version
  lines (when enabled) followed by the engine lines (when enabled), and in each of the
  two groups the lines of the root come first, without a prefix, followed by the lines
  of the member contexts, each with the prefix of its subpath in brackets. The warnings
  likewise. The statement leaves open in which order the member contexts follow one
  another.
\<close>

theorem member_lines_prefixed_after_root_lines:
  assumes "installedCheck ev fs sched (Some opt) = (log, Inr r)"
  shows "\<exists>mainPackage mainInstalled memberChecks.
           readRoot fs sched (orElse (path opt) ''.'') = Inr (mainPackage, mainInstalled)
         \<and> mset (map Inr memberChecks)
             = mset (map (memberTask fs mainPackage mainInstalled (orElse (path opt) ''.''))
                       (members (orElse (traverseWorkspaces opt) True) mainPackage))
         \<and> list_all (\<lambda>c. \<exists>w \<in> set (members (orElse (traverseWorkspaces opt) True) mainPackage).
                            subpath c = Some (orElse (path opt) ''.'' @ ''/'' @ w)) memberChecks
         \<and> errors r =
             (if orElse (versionCheck opt) False
              then errors (versionResult ev (mainCheck mainPackage mainInstalled))
                   @ memberLines (\<lambda>c. errors (versionResult ev c)) memberChecks
              else [])
             @ (if orElse (engineCheck opt) False
                then errors (engineResult ev (orElse (engineNoDev opt) False)
                               (orElse (engineIgnores opt) [])
                               (mainCheck mainPackage mainInstalled))
                     @ memberLines (\<lambda>c. errors (engineResult ev (orElse (engineNoDev opt) False)
                                                   (orElse (engineIgnores opt) []) c))
                         memberChecks
                else [])
         \<and> warnings r =
             (if orElse (versionCheck opt) False
              then warnings (versionResult ev (mainCheck mainPackage mainInstalled))
                   @ memberLines (\<lambda>c. warnings (versionResult ev c)) memberChecks
              else [])
             @ (if orElse (engineCheck opt) False
                then warnings (engineResult ev (orElse (engineNoDev opt) False)
                                 (orElse (engineIgnores opt) [])
                                 (mainCheck mainPackage mainInstalled))
                     @ memberLines (\<lambda>c. warnings (engineResult ev (orElse (engineNoDev opt) False)
                                                     (orElse (engineIgnores opt) []) c))
                         memberChecks
                else [])"
proof -
  let ?p = "orElse (path opt) ''.''"
  from assms obtain mainPackage mainInstalled memberChecks where
    root: "readRoot fs sched ?p = Inr (mainPackage, mainInstalled)"
    and ws: "workspaceChecks fs sched mainPackage mainInstalled ?p
               (members (orElse (traverseWorkspaces opt) True) mainPackage) = Inr memberChecks"
    and r: "r = runChecks ev (orElse (versionCheck opt) False) (orElse (engineCheck opt) False)
                  (orElse (engineNoDev opt) False) (orElse (engineIgnores opt) [])
                  (mainCheck mainPackage mainInstalled # memberChecks)"
    by (rule installedCheck_returned)
  let ?ws = "members (orElse (traverseWorkspaces opt) True) mainPackage"
  let ?task = "memberTask fs mainPackage mainInstalled ?p"
  have settled: "map Inr memberChecks = settle_order (memberPicks sched) (map ?task ?ws)"
    using ws by (rule workspaceChecks_settled)
  then have ms: "mset (map Inr memberChecks) = mset (map ?task ?ws)"
    by (simp only: mset_settle_order)
  have from_member: "\<exists>w \<in> set ?ws. subpath c = Some (?p @ ''/'' @ w)"
    if "c \<in> set memberChecks" for c
  proof -
    have "set (map Inr memberChecks) = set (map ?task ?ws)"
      using ms by (rule mset_eq_setD)
    moreover have "Inr c \<in> set (map Inr memberChecks)" using that by simp
    ultimately have "Inr c \<in> set (map ?task ?ws)" by blast
    then obtain w where "w \<in> set ?ws" "?task w = Inr c" by auto
    then show ?thesis using memberTask_subpath by blast
  qed
  then have subs: "list_all (\<lambda>c. \<exists>w \<in> set ?ws. subpath c = Some (?p @ ''/'' @ w)) memberChecks"
    by (simp add: list_all_iff)
  have "list_all (\<lambda>c. \<exists>sub. subpath c = Some sub \<and> sub \<noteq> []) memberChecks"
    using from_member by (fastforce simp: list_all_iff)
  note split = block_root_members [OF this]
  have "errors r =
             (if orElse (versionCheck opt) False
              then errors (versionResult ev (mainCheck mainPackage mainInstalled))
                   @ memberLines (\<lambda>c. errors (versionResult ev c)) memberChecks
              else [])
             @ (if orElse (engineCheck opt) False
                then errors (engineResult ev (orElse (engineNoDev opt) False)
                               (orElse (engineIgnores opt) [])
                               (mainCheck mainPackage mainInstalled))
                     @ memberLines (\<lambda>c. errors (engineResult ev (orElse (engineNoDev opt) False)
                                                   (orElse (engineIgnores opt) []) c))
                         memberChecks
                else [])"
    unfolding r runChecks_blocks by (simp add: split)
  moreover have "warnings r =
             (if orElse (versionCheck opt) False
              then warnings (versionResult ev (mainCheck mainPackage mainInstalled))
                   @ memberLines (\<lambda>c. warnings (versionResult ev c)) memberChecks
              else [])
             @ (if orElse (engineCheck opt) False
                then warnings (engineResult ev (orElse (engineNoDev opt) False)
                                 (orElse (engineIgnores opt) [])
                                 (mainCheck mainPackage mainInstalled))
                     @ memberLines (\<lambda>c. warnings (engineResult ev (orElse (engineNoDev opt) False)
                                                     (orElse (engineIgnores opt) []) c))
                         memberChecks
                else [])"
    unfolding r runChecks_blocks by (simp add: split)
  ultimately show ?thesis
    using root ms subs by blast
qed

theorem member_lines_prefixed_after_root_lines_witness:
  "\<exists>mainPackage mainInstalled memberChecks.
     readRoot ex_readers last_first (orElse (path ex_options) ''.'')
       = Inr (mainPackage, mainInstalled)
   \<and> mset (map Inr memberChecks)
       = mset (map (memberTask ex_readers mainPackage mainInstalled
                      (orElse (path ex_options) ''.''))
                 (members (orElse (traverseWorkspaces ex_options) True) mainPackage))
   \<and> list_all (\<lambda>c. \<exists>w \<in> set (members (orElse (traverseWorkspaces ex_options) True)
                                  mainPackage).
                      subpath c = Some (orElse (path ex_options) ''.'' @ ''/'' @ w)) memberChecks
   \<and> errors \<lparr> errors = [''left-pad is not installed'', ''[./b] tape is not installed'',
                          ''[./a] chalk is not installed'', ''old engine mismatch'',
                          ''[./a] legacy engine mismatch''],
               warnings = [], notices = [] \<rparr> =
       (if orElse (versionCheck ex_options) False
        then errors (versionResult ex_evaluators (mainCheck mainPackage mainInstalled))
             @ memberLines (\<lambda>c. errors (versionResult ex_evaluators c)) memberChecks
        else [])
       @ (if orElse (engineCheck ex_options) False
          then errors (engineResult ex_evaluators (orElse (engineNoDev ex_options) False)
                         (orElse (engineIgnores ex_options) [])
                         (mainCheck mainPackage mainInstalled))
               @ memberLines (\<lambda>c. errors (engineResult ex_evaluators
                                             (orElse (engineNoDev ex_options) False)
                                             (orElse (engineIgnores ex_options) []) c))
                   memberChecks
          else [])
   \<and> warnings \<lparr> errors = [''left-pad is not installed'', ''[./b] tape is not installed'',
                            ''[./a] chalk is not installed'', ''old engine mismatch'',
                            ''[./a] legacy engine mismatch''],
                 warnings = [], notices = [] \<rparr> =
       (if orElse (versionCheck ex_options) False
        then warnings (versionResult ex_evaluators (mainCheck mainPackage mainInstalled))
             @ memberLines (\<lambda>c. warnings (versionResult ex_evaluators c)) memberChecks
        else [])
       @ (if orElse (engineCheck ex_options) False
          then warnings (engineResult ex_evaluators (orElse (engineNoDev ex_options) False)
                           (orElse (engineIgnores ex_options) [])
                           (mainCheck mainPackage mainInstalled))
               @ memberLines (\<lambda>c. warnings (engineResult ex_evaluators
                                               (orElse (engineNoDev ex_options) False)
                                               (orElse (engineIgnores ex_options) []) c))
                   memberChecks
          else [])"
proof -
  have run: "installedCheck ex_evaluators ex_readers last_first (Some ex_options)
       = ([ReadPackage ''.'', ListInstalled ''.'', ReadPackage ''./a'', ListInstalled ''./a'',
           ReadPackage ''./b'', ListInstalled ''./b''],
          Inr \<lparr> errors = [''left-pad is not installed'', ''[./b] tape is not installed'',
                           ''[./a] chalk is not installed'', ''old engine mismatch'',
                           ''[./a] legacy engine mismatch''],
                warnings = [], notices = [] \<rparr>)"
    by code_simp
  show ?thesis
    by (rule member_lines_prefixed_after_root_lines [OF run])
qed

text \<open>
  C9. Two runs on the same options, manifests and snapshots differ when the reads of the
  members settle in a different order: each member pushes its context from its own
  \<^verbatim>\<open>then\<close> callback, so the contexts are in settling order. Here \<^verbatim>\<open>a\<close> settles before \<^verbatim>\<open>b\<close>
  in the first run and after it in the second.
\<close>

theorem result_order_follows_settling_order:
  "snd (installedCheck ex_evaluators ex_readers in_order (Some ex_options))
     = Inr \<lparr> errors = [''left-pad is not installed'', ''[./a] chalk is not installed'',
                        ''[./b] tape is not installed'', ''old engine mismatch'',
                        ''[./a] legacy engine mismatch''],
             warnings = [], notices = [] \<rparr>
   \<and> snd (installedCheck ex_evaluators ex_readers last_first (Some ex_options))
     = Inr \<lparr> errors = [''left-pad is not installed'', ''[./b] tape is not installed'',
                        ''[./a] chalk is not installed'', ''old engine mismatch'',
                        ''[./a] legacy engine mismatch''],
             warnings = [], notices = [] \<rparr>
   \<and> installedCheck ex_evaluators ex_readers in_order (Some ex_options)
     \<noteq> installedCheck ex_evaluators ex_readers last_first (Some ex_options)"
  by code_simp

subsection \<open>Failed reads of a workspace member\<close>



end
